theory Spec2Isabelle
  imports Main "HOL-Library.Sublist" "HOL-Library.Word"
begin

section \<open>JavaScript strings\<close>

text \<open>
  Source strings are modelled as \<^typ>\<open>string\<close>. The three string predicates the
  source uses are the contiguous-substring, prefix and suffix relations on lists,
  with the receiver first as in JavaScript.
\<close>

definition str_includes :: "string \<Rightarrow> string \<Rightarrow> bool" where
  "str_includes s k = sublist k s"

definition startsWith :: "string \<Rightarrow> string \<Rightarrow> bool" where
  "startsWith s p = prefix p s"

definition endsWith :: "string \<Rightarrow> string \<Rightarrow> bool" where
  "endsWith s e = suffix e s"

text \<open>\<open>s.split(c)\<close> for a one-character separator: never empty, \<open>pop()\<close> is its last piece.\<close>

fun split_js :: "char \<Rightarrow> string \<Rightarrow> string list" where
  "split_js c [] = [[]]"
| "split_js c (x # xs) =
     (if x = c then [] # split_js c xs
      else (case split_js c xs of [] \<Rightarrow> [[x]] | p # ps \<Rightarrow> (x # p) # ps))"

definition pop :: "string list \<Rightarrow> string" where
  "pop ps = last ps"

text \<open>\<open>toLowerCase\<close> on the ASCII letters; other bytes are kept.\<close>

definition lower_char :: "char \<Rightarrow> char" where
  "lower_char c =
     (let n = (of_char c :: nat)
      in if 65 \<le> n \<and> n \<le> 90 then char_of (n + 32) else c)"

definition toLowerCase :: "string \<Rightarrow> string" where
  "toLowerCase s = map lower_char s"

text \<open>Decimal rendering of a non-negative integer inside a template string.\<close>

definition digit_char :: "nat \<Rightarrow> char" where
  "digit_char d = ''0123456789'' ! d"

function show_nat :: "nat \<Rightarrow> string" where
  "show_nat n = (if n < 10 then [digit_char n] else show_nat (n div 10) @ [digit_char (n mod 10)])"
  by pat_completeness auto
termination
  by (relation "measure (\<lambda>n. n)") auto

declare show_nat.simps [simp del]

section \<open>Thrown values, effects and the trace\<close>

text \<open>
  A thrown value is an \<open>Error\<close> object (its \<open>name\<close> and its \<open>message\<close>) or
  \<open>undefined\<close>, which is what \<open>throw lastError\<close> throws when the loop body never ran.
\<close>

datatype js_thrown = Error string string | Undefined

text \<open>
  The value of \<open>mimeType\<close>: a string, or the value of a property that the lookup
  \<open>mimeTypes[ext]\<close> found on \<open>Object.prototype\<close> (a function or an object, named
  here by its property).
\<close>

datatype mime_value = Mime string | Object_prototype_property string

datatype blob_part = Text_part string | Bytes_part "8 word list"

record blob =
  blob_parts :: "blob_part list"
  blob_type :: mime_value

record form_entry =
  entry_name :: string
  entry_blob :: blob
  entry_filename :: "string option"

record request =
  req_url :: string
  req_method :: string
  req_headers :: "(string \<times> string) list"
  req_body :: "form_entry list option"

record response =
  resp_status :: nat
  resp_content_type :: "string option"
  resp_text :: string

text \<open>
  A response is its status, its \<open>content-type\<close> header (\<open>None\<close> when absent) and its
  body text; reading the body is taken to succeed. \<open>response.ok\<close> is that of the Fetch
  standard: the status is in the range 200 to 299.
\<close>

definition ok :: "response \<Rightarrow> bool" where
  "ok r = (200 \<le> resp_status r \<and> resp_status r \<le> 299)"

text \<open>
  Every \<open>console.error\<close> call of the source, one constructor for each, with the data it
  prints.
\<close>

datatype log_entry =
    Log_retrying nat string int
  | Log_uploading_asset string
  | Log_reading_file string
  | Log_file_read nat
  | Log_uploading_to string
  | Log_upload_failed nat string
  | Log_asset_uploaded string
  | Log_triggering_preview string
  | Log_preview_failed nat
  | Log_preview_triggered
  | Log_publishing string
  | Log_publish_failed nat
  | Log_publish_triggered
  | Log_asset_available string
  | Log_failed js_thrown
  | Log_error_details string string
  | Log_thrown js_thrown

datatype event = Fetch request | Sleep int | Log log_entry

type_synonym trace = "event list"

text \<open>
  An asynchronous operation, awaited: it reads the effects so far, appends its own,
  and either returns a value (\<open>Inr\<close>) or throws (\<open>Inl\<close>).
\<close>

type_synonym 'a io = "trace \<Rightarrow> (js_thrown + 'a) \<times> trace"

definition return_io :: "'a \<Rightarrow> 'a io" where
  "return_io v t = (Inr v, t)"

definition throw_io :: "js_thrown \<Rightarrow> 'a io" where
  "throw_io e t = (Inl e, t)"

definition bind_io :: "'a io \<Rightarrow> ('a \<Rightarrow> 'b io) \<Rightarrow> 'b io" where
  "bind_io m f t = (case m t of (Inl e, t') \<Rightarrow> (Inl e, t') | (Inr v, t') \<Rightarrow> f v t')"

definition then_io :: "'a io \<Rightarrow> 'b io \<Rightarrow> 'b io" where
  "then_io m n = bind_io m (\<lambda>_. n)"

definition console_error :: "log_entry \<Rightarrow> unit io" where
  "console_error l t = (Inr (), t @ [Log l])"

definition setTimeout :: "int \<Rightarrow> unit io" where
  "setTimeout ms t = (Inr (), t @ [Sleep ms])"

text \<open>
  The network is a parameter: the outcome of a \<open>fetch\<close> may depend on everything that
  happened before it. A rejected \<open>fetch\<close> is \<open>Inl\<close>.
\<close>

type_synonym network = "trace \<Rightarrow> request \<Rightarrow> js_thrown + response"

definition fetch :: "network \<Rightarrow> request \<Rightarrow> response io" where
  "fetch net req t = (net t req, t @ [Fetch req])"

section \<open>retryWithBackoff\<close>

definition isRetryable :: "string \<Rightarrow> bool" where
  "isRetryable message =
     (str_includes message ''Failed to fetch'' \<or>
      str_includes message ''SSL'' \<or>
      str_includes message ''TLS'' \<or>
      str_includes message ''Network'' \<or>
      str_includes message ''ECONNRESET'')"

text \<open>Reading \<open>.message\<close> of \<open>undefined\<close> throws a \<open>TypeError\<close> (the text is V8's).\<close>

definition message_of_undefined :: js_thrown where
  "message_of_undefined =
     Error ''TypeError'' ''Cannot read properties of undefined (reading 'message')''"

text \<open>
  The loop of \<open>retryWithBackoff\<close>, from \<open>attempt\<close> on. \<open>maxRetries\<close> and
  \<open>initialDelay\<close> are integers. The source computes the delay in double precision:
  the integer \<open>initialDelay * 2 ^ attempt\<close> is that value as long as it is at most
  \<open>2 ^ 53\<close>, which holds at the program's calls \<open>(3, 1000)\<close> and \<open>(2, 500)\<close>, and
  what is proved of the delays is proved within that range. How often \<open>fn\<close> is invoked
  and what is returned or thrown does not depend on the delay. Beside the outcome and
  the trace, the run reports two observations of itself: how many times it invoked
  \<open>fn\<close>, and the delays it waited, in order.
\<close>

function retry_loop ::
  "'a io \<Rightarrow> int \<Rightarrow> int \<Rightarrow> int \<Rightarrow> js_thrown \<Rightarrow> nat \<Rightarrow> int list \<Rightarrow> trace
     \<Rightarrow> (js_thrown + 'a) \<times> nat \<times> int list \<times> trace" where
  "retry_loop fn maxRetries initialDelay attempt lastError calls delays t =
     (if attempt \<le> maxRetries then
        (case fn t of
           (Inr v, t') \<Rightarrow> (Inr v, Suc calls, delays, t')
         | (Inl error, t') \<Rightarrow>
             (case error of
                Undefined \<Rightarrow> (Inl message_of_undefined, Suc calls, delays, t')
              | Error name message \<Rightarrow>
                  if \<not> isRetryable message \<or> attempt = maxRetries
                  then (Inl error, Suc calls, delays, t')
                  else
                    (let delay = initialDelay * 2 ^ nat attempt
                     in retry_loop fn maxRetries initialDelay (attempt + 1) error (Suc calls)
                          (delays @ [delay])
                          (t' @ [Log (Log_retrying (nat (attempt + 1)) message delay),
                                 Sleep delay]))))
      else (Inl lastError, calls, delays, t))"
  by pat_completeness auto
termination
  by (relation "measure (\<lambda>(fn, maxRetries, initialDelay, attempt, rest).
        nat (maxRetries + 1 - attempt))") auto

declare retry_loop.simps [simp del]

definition retryWithBackoff ::
  "'a io \<Rightarrow> int \<Rightarrow> int \<Rightarrow> trace \<Rightarrow> (js_thrown + 'a) \<times> nat \<times> int list \<times> trace" where
  "retryWithBackoff fn maxRetries initialDelay t =
     retry_loop fn maxRetries initialDelay 0 Undefined 0 [] t"

text \<open>The same call as the caller awaits it: outcome and trace only.\<close>

definition await_retry :: "'a io \<Rightarrow> int \<Rightarrow> int \<Rightarrow> 'a io" where
  "await_retry fn maxRetries initialDelay t =
     (case retryWithBackoff fn maxRetries initialDelay t of (r, calls, delays, t') \<Rightarrow> (r, t'))"


section \<open>The environment\<close>

text \<open>
  What the source takes from outside itself: the two constants of \<open>global.js\<close>, the
  token of \<open>process.env\<close>, the runtime's \<open>JSON.parse\<close> (\<open>None\<close> when it throws),
  \<open>JSON.stringify\<close> with and without indentation, \<open>readFileSync\<close>, and the network.
\<close>

datatype json =
    JNull
  | JBool bool
  | JNumber int
  | JString string
  | JArray "json list"
  | JObject "(string \<times> json) list"

record env =
  USER_AGENT :: string
  ADMIN_API_URL :: string
  DA_ADMIN_API_TOKEN :: "string option"
  JSON_parse :: "string \<Rightarrow> json option"
  JSON_stringify :: "json \<Rightarrow> string"
  JSON_stringify_indent :: "json \<Rightarrow> string"
  readFileSync :: "string \<Rightarrow> js_thrown + 8 word list"
  network_of :: network

section \<open>utils.js\<close>

definition parseResponseBody :: "env \<Rightarrow> response \<Rightarrow> json" where
  "parseResponseBody E response =
     (case resp_content_type response of
        None \<Rightarrow> JString (resp_text response)
      | Some contentType \<Rightarrow>
          if str_includes contentType ''application/json''
          then (case JSON_parse E (resp_text response) of
                  Some v \<Rightarrow> v
                | None \<Rightarrow> JObject [])
          else JString (resp_text response))"

record options =
  opt_method :: "string option"
  opt_headers :: "(string \<times> string) list"
  opt_body :: "form_entry list option"

text \<open>Assignment to a property of an object literal: in place if the key exists, else appended.\<close>

fun set_property :: "string \<Rightarrow> string \<Rightarrow> (string \<times> string) list \<Rightarrow> (string \<times> string) list" where
  "set_property k v [] = [(k, v)]"
| "set_property k v ((k', v') # kvs) =
     (if k' = k then (k, v) # kvs else (k', v') # set_property k v kvs)"

definition spread :: "(string \<times> string) list \<Rightarrow> (string \<times> string) list \<Rightarrow> (string \<times> string) list" where
  "spread props obj = fold (\<lambda>(k, v). set_property k v) props obj"

definition truthy :: "string option \<Rightarrow> bool" where
  "truthy s = (case s of None \<Rightarrow> False | Some x \<Rightarrow> x \<noteq> [])"

definition daAdminRequest :: "env \<Rightarrow> string \<Rightarrow> options \<Rightarrow> json io" where
  "daAdminRequest E url opts =
     (let headers = spread (opt_headers opts) [(''User-Agent'', USER_AGENT E)];
          headers = (if truthy (DA_ADMIN_API_TOKEN E)
                     then set_property ''Authorization''
                            (''Bearer '' @ the (DA_ADMIN_API_TOKEN E)) headers
                     else headers);
          init = \<lparr> req_url = url,
                   req_method = (if truthy (opt_method opts) then the (opt_method opts) else ''GET''),
                   req_headers = headers,
                   req_body = opt_body opts \<rparr>
      in bind_io (fetch (network_of E) init) (\<lambda>response.
           let responseBody = parseResponseBody E response
           in if \<not> ok response
              then (let errorMessage = (case responseBody of
                                          JString s \<Rightarrow> s
                                        | _ \<Rightarrow> JSON_stringify E responseBody)
                    in throw_io (Error ''Error''
                         (show_nat (resp_status response) @ '': '' @ errorMessage)))
              else return_io responseBody))"

record tool_content =
  content_type :: string
  content_text :: string

definition daAdminResponseFormat :: "env \<Rightarrow> json \<Rightarrow> tool_content list" where
  "daAdminResponseFormat E data =
     [\<lparr> content_type = ''text'', content_text = JSON_stringify_indent E data \<rparr>]"

definition formatURL :: "env \<Rightarrow> string \<Rightarrow> string \<Rightarrow> string \<Rightarrow> string \<Rightarrow> string \<Rightarrow> string" where
  "formatURL E api org repo path ext =
     (let cleanPath = (if startsWith path ''/'' then drop 1 path else path);
          cleanPath = (if ext \<noteq> []
                       then (let expectedExt = ''.'' @ ext
                             in if \<not> endsWith cleanPath expectedExt
                                then cleanPath @ expectedExt else cleanPath)
                       else cleanPath)
      in ADMIN_API_URL E @ ''/'' @ api @ ''/'' @ org @ ''/'' @ repo @ ''/'' @ cleanPath)"

section \<open>source.js\<close>

definition catch_io :: "'a io \<Rightarrow> (js_thrown \<Rightarrow> 'a io) \<Rightarrow> 'a io" where
  "catch_io m handler t = (case m t of (Inl e, t') \<Rightarrow> handler e t' | (Inr v, t') \<Rightarrow> (Inr v, t'))"

definition createSource ::
  "env \<Rightarrow> string \<Rightarrow> string \<Rightarrow> string \<Rightarrow> string \<Rightarrow> string \<Rightarrow> tool_content list io" where
  "createSource E org repo path ext content =
     catch_io
       (let url = formatURL E ''source'' org repo path ext;
            type = (if ext = ''html'' then ''text/html'' else ''application/json'');
            blob = \<lparr> blob_parts = [Text_part content], blob_type = Mime type \<rparr>;
            body = [\<lparr> entry_name = ''data'', entry_blob = blob, entry_filename = None \<rparr>]
        in bind_io
             (daAdminRequest E url
                \<lparr> opt_method = Some ''POST'', opt_headers = [], opt_body = Some body \<rparr>)
             (\<lambda>data. return_io (daAdminResponseFormat E data)))
       (\<lambda>error. then_io (console_error (Log_thrown error)) (throw_io error))"


subsection \<open>uploadAsset\<close>

text \<open>The object literal \<open>mimeTypes\<close>: its own properties.\<close>

definition mimeTypes :: "(string \<times> string) list" where
  "mimeTypes =
     [(''png'', ''image/png''),
      (''jpg'', ''image/jpeg''),
      (''jpeg'', ''image/jpeg''),
      (''gif'', ''image/gif''),
      (''webp'', ''image/webp''),
      (''svg'', ''image/svg+xml''),
      (''pdf'', ''application/pdf''),
      (''mp4'', ''video/mp4''),
      (''webm'', ''video/webm'')]"

text \<open>
  \<open>mimeTypes\<close> is an ordinary object, so \<open>mimeTypes[ext]\<close> also finds what the
  object inherits from \<open>Object.prototype\<close>. These are the inherited property names;
  each of their values is a function or an object, hence truthy.
\<close>

definition Object_prototype_keys :: "string list" where
  "Object_prototype_keys =
     [''constructor'', ''__defineGetter__'', ''__defineSetter__'', ''hasOwnProperty'',
      ''__lookupGetter__'', ''__lookupSetter__'', ''isPrototypeOf'', ''propertyIsEnumerable'',
      ''toString'', ''valueOf'', ''__proto__'', ''toLocaleString'']"

text \<open>\<open>mimeTypes[ext] || 'application/octet-stream'\<close>.\<close>

definition lookup_mimeType :: "string \<Rightarrow> mime_value" where
  "lookup_mimeType ext =
     (case map_of mimeTypes ext of
        Some m \<Rightarrow> Mime m
      | None \<Rightarrow>
          if ext \<in> set Object_prototype_keys then Object_prototype_property ext
          else Mime ''application/octet-stream'')"

definition resolve_mimeType :: "string option \<Rightarrow> string \<Rightarrow> mime_value" where
  "resolve_mimeType contentType localFilePath =
     (if \<not> truthy contentType
      then (let ext = toLowerCase (pop (split_js CHR ''.'' localFilePath))
            in lookup_mimeType ext)
      else Mime (the contentType))"

text \<open>A template string prints an unset environment variable as \<open>undefined\<close>.\<close>

definition bearer :: "env \<Rightarrow> string" where
  "bearer E =
     ''Bearer '' @ (case DA_ADMIN_API_TOKEN E of None \<Rightarrow> ''undefined'' | Some tok \<Rightarrow> tok)"

definition uploadUrl :: "string \<Rightarrow> string \<Rightarrow> string \<Rightarrow> string" where
  "uploadUrl org repo path = ''https://admin.da.live/source/'' @ org @ ''/'' @ repo @ ''/'' @ path"

definition previewUrl :: "string \<Rightarrow> string \<Rightarrow> string \<Rightarrow> string" where
  "previewUrl org repo path =
     ''https://admin.hlx.page/preview/'' @ org @ ''/'' @ repo @ ''/main/'' @ path"

definition publishUrl :: "string \<Rightarrow> string \<Rightarrow> string \<Rightarrow> string" where
  "publishUrl org repo path =
     ''https://admin.hlx.page/live/'' @ org @ ''/'' @ repo @ ''/main/'' @ path"

definition edsUrl :: "string \<Rightarrow> string \<Rightarrow> string \<Rightarrow> string" where
  "edsUrl org repo path = ''https://main--'' @ repo @ ''--'' @ org @ ''.aem.page/'' @ path"

definition liveUrl :: "string \<Rightarrow> string \<Rightarrow> string \<Rightarrow> string" where
  "liveUrl org repo path = ''https://main--'' @ repo @ ''--'' @ org @ ''.aem.live/'' @ path"

definition upload_request ::
  "env \<Rightarrow> string \<Rightarrow> string \<Rightarrow> string \<Rightarrow> 8 word list \<Rightarrow> mime_value \<Rightarrow> request" where
  "upload_request E org repo path fileBuffer mimeType =
     (let blob = \<lparr> blob_parts = [Bytes_part fileBuffer], blob_type = mimeType \<rparr>;
          filename = pop (split_js CHR ''/'' path);
          formData = [\<lparr> entry_name = ''data'', entry_blob = blob,
                         entry_filename = Some filename \<rparr>]
      in \<lparr> req_url = uploadUrl org repo path,
           req_method = ''POST'',
           req_headers = [(''Authorization'', bearer E)],
           req_body = Some formData \<rparr>)"

definition trigger_request :: "env \<Rightarrow> string \<Rightarrow> request" where
  "trigger_request E url =
     \<lparr> req_url = url, req_method = ''POST'',
       req_headers = [(''Authorization'', bearer E)], req_body = None \<rparr>"

text \<open>The three operations handed to \<open>retryWithBackoff\<close>.\<close>

definition upload_step ::
  "env \<Rightarrow> string \<Rightarrow> string \<Rightarrow> string \<Rightarrow> 8 word list \<Rightarrow> mime_value \<Rightarrow> unit io" where
  "upload_step E org repo path fileBuffer mimeType =
     bind_io (fetch (network_of E) (upload_request E org repo path fileBuffer mimeType))
       (\<lambda>uploadResponse.
          if \<not> ok uploadResponse
          then then_io
                 (console_error
                    (Log_upload_failed (resp_status uploadResponse) (resp_text uploadResponse)))
                 (throw_io (Error ''Error''
                    (''DA upload failed: '' @ show_nat (resp_status uploadResponse))))
          else console_error (Log_asset_uploaded path))"

definition preview_step :: "env \<Rightarrow> string \<Rightarrow> string \<Rightarrow> string \<Rightarrow> unit io" where
  "preview_step E org repo path =
     bind_io (fetch (network_of E) (trigger_request E (previewUrl org repo path)))
       (\<lambda>previewResponse.
          if \<not> ok previewResponse
          then console_error (Log_preview_failed (resp_status previewResponse))
          else console_error Log_preview_triggered)"

definition publish_step :: "env \<Rightarrow> string \<Rightarrow> string \<Rightarrow> string \<Rightarrow> unit io" where
  "publish_step E org repo path =
     bind_io (fetch (network_of E) (trigger_request E (publishUrl org repo path)))
       (\<lambda>publishResponse.
          if \<not> ok publishResponse
          then console_error (Log_publish_failed (resp_status publishResponse))
          else console_error Log_publish_triggered)"

record upload_result =
  success :: bool
  result_path :: string
  result_previewUrl :: string
  result_liveUrl :: string
  result_contentType :: mime_value
  result_size :: nat

definition newline :: string where
  "newline = [CHR 0x0A]"

definition network_error_message :: "string \<Rightarrow> string" where
  "network_error_message message =
     ''Network error uploading to DA after multiple retries. This could be:'' @ newline @
     ''- SSL/TLS issue (ERR_SSL_BAD_RECORD_MAC_ALERT)'' @ newline @
     ''- Network connectivity problem'' @ newline @
     ''- DA API rate limiting'' @ newline @
     ''- Server connection limit'' @ newline @
     ''Original error: '' @ message @ newline @ newline @
     ''Try again in a few moments.''"

text \<open>Reading \<open>.name\<close> of \<open>undefined\<close> in the handler throws a \<open>TypeError\<close> (V8's text).\<close>

definition name_of_undefined :: js_thrown where
  "name_of_undefined =
     Error ''TypeError'' ''Cannot read properties of undefined (reading 'name')''"

text \<open>The \<open>try\<close> block of \<open>uploadAsset\<close>.\<close>

definition uploadAsset_try ::
  "env \<Rightarrow> string \<Rightarrow> string \<Rightarrow> string \<Rightarrow> string \<Rightarrow> string option \<Rightarrow> upload_result io" where
  "uploadAsset_try E org repo path localFilePath contentType =
     then_io (console_error (Log_reading_file localFilePath))
       (case readFileSync E localFilePath of
          Inl e \<Rightarrow> throw_io e
        | Inr fileBuffer \<Rightarrow>
            then_io (console_error (Log_file_read (length fileBuffer)))
              (let mimeType = resolve_mimeType contentType localFilePath
               in then_io (console_error (Log_uploading_to (uploadUrl org repo path)))
                 (then_io (await_retry (upload_step E org repo path fileBuffer mimeType) 3 1000)
                 (then_io (console_error (Log_triggering_preview (previewUrl org repo path)))
                 (then_io (await_retry (preview_step E org repo path) 2 500)
                 (then_io (setTimeout 1000)
                 (then_io (console_error (Log_publishing (publishUrl org repo path)))
                 (then_io (await_retry (publish_step E org repo path) 2 500)
                 (then_io (setTimeout 800)
                 (then_io (console_error (Log_asset_available (edsUrl org repo path)))
                 (return_io
                    \<lparr> success = True,
                      result_path = path,
                      result_previewUrl = edsUrl org repo path,
                      result_liveUrl = liveUrl org repo path,
                      result_contentType = mimeType,
                      result_size = length fileBuffer \<rparr>)))))))))))"

text \<open>The \<open>catch\<close> block of \<open>uploadAsset\<close>.\<close>

definition uploadAsset_catch :: "js_thrown \<Rightarrow> upload_result io" where
  "uploadAsset_catch error =
     then_io (console_error (Log_failed error))
       (case error of
          Undefined \<Rightarrow> throw_io name_of_undefined
        | Error name message \<Rightarrow>
            then_io (console_error (Log_error_details name message))
              (if str_includes message ''Failed to fetch'' \<or> str_includes message ''SSL'' \<or>
                  str_includes message ''TLS''
               then throw_io (Error ''Error'' (network_error_message message))
               else throw_io (Error ''Error'' (''Failed to upload asset to DA: '' @ message))))"

definition uploadAsset ::
  "env \<Rightarrow> string \<Rightarrow> string \<Rightarrow> string \<Rightarrow> string \<Rightarrow> string option \<Rightarrow> upload_result io" where
  "uploadAsset E org repo path localFilePath contentType =
     then_io (console_error (Log_uploading_asset path))
       (catch_io (uploadAsset_try E org repo path localFilePath contentType) uploadAsset_catch)"

text \<open>The requests of a trace, in order.\<close>

fun fetched :: "trace \<Rightarrow> request list" where
  "fetched [] = []"
| "fetched (Fetch req # t) = req # fetched t"
| "fetched (_ # t) = fetched t"


text \<open>The waits of a trace, in order.\<close>

fun slept :: "trace \<Rightarrow> int list" where
  "slept [] = []"
| "slept (Sleep ms # t) = ms # slept t"
| "slept (_ # t) = slept t"

section \<open>Observations of a run\<close>

definition outcome_of :: "'r \<times> nat \<times> int list \<times> trace \<Rightarrow> 'r" where
  "outcome_of run = fst run"

definition invocations_of :: "'r \<times> nat \<times> int list \<times> trace \<Rightarrow> nat" where
  "invocations_of run = fst (snd run)"

definition delays_of :: "'r \<times> nat \<times> int list \<times> trace \<Rightarrow> int list" where
  "delays_of run = fst (snd (snd run))"

text \<open>
  The trace after attempt \<open>k\<close> (0-based) failed with a retried error: what \<open>fn\<close> did,
  then the log line and the wait.
\<close>

definition after_failure :: "'a io \<Rightarrow> int \<Rightarrow> nat \<Rightarrow> trace \<Rightarrow> trace" where
  "after_failure fn d k s =
     (case fn s of
        (Inl (Error name message), s') \<Rightarrow>
          s' @ [Log (Log_retrying (Suc k) message (d * 2 ^ k)), Sleep (d * 2 ^ k)]
      | (_, s') \<Rightarrow> s')"

text \<open>The trace after \<open>j\<close> failed attempts in a row, the first of them attempt \<open>k\<close>.\<close>

fun trace_after_failures :: "'a io \<Rightarrow> int \<Rightarrow> nat \<Rightarrow> nat \<Rightarrow> trace \<Rightarrow> trace" where
  "trace_after_failures fn d k 0 s = s"
| "trace_after_failures fn d k (Suc j) s =
     trace_after_failures fn d (Suc k) j (after_failure fn d k s)"

text \<open>An operation that fails on each invocation with an error classified transient.\<close>

definition always_transient :: "'a io \<Rightarrow> bool" where
  "always_transient fn =
     (\<forall>s. \<exists>name message. fst (fn s) = Inl (Error name message) \<and> isRetryable message)"

text \<open>The request that \<open>daAdminRequest\<close> hands to \<open>fetch\<close>.\<close>

definition request_sent :: "env \<Rightarrow> string \<Rightarrow> options \<Rightarrow> request" where
  "request_sent E url opts = last (fetched (snd (daAdminRequest E url opts [])))"

text \<open>What \<open>uploadAsset\<close> has logged when it starts the upload step.\<close>

definition upload_prefix :: "string \<Rightarrow> string \<Rightarrow> string \<Rightarrow> string \<Rightarrow> nat \<Rightarrow> trace" where
  "upload_prefix org repo path localFilePath n =
     [Log (Log_uploading_asset path), Log (Log_reading_file localFilePath),
      Log (Log_file_read n), Log (Log_uploading_to (uploadUrl org repo path))]"

text \<open>
  The trace in which attempt \<open>k\<close> (0-based) of the upload step starts, the attempts
  before it having failed and been retried.
\<close>

definition upload_attempt_trace ::
  "env \<Rightarrow> string \<Rightarrow> string \<Rightarrow> string \<Rightarrow> string \<Rightarrow> string option \<Rightarrow> 8 word list \<Rightarrow> nat \<Rightarrow> trace" where
  "upload_attempt_trace E org repo path localFilePath contentType fileBuffer k =
     trace_after_failures
       (upload_step E org repo path fileBuffer (resolve_mimeType contentType localFilePath))
       1000 0 k (upload_prefix org repo path localFilePath (length fileBuffer))"

section \<open>Example environments\<close>

text \<open>
  Concrete environments for evaluating the model: a four-byte file under every path, a
  toy \<open>JSON.parse\<close> that accepts \<open>{}\<close> only, and a network that answers every request
  with status 200, rejects every request, answers every request with status 500,
  serves the upload and rejects everything else, or rejects the first request and
  answers every later one with status 500.
\<close>

definition example_env :: "network \<Rightarrow> env" where
  "example_env net =
     \<lparr> USER_AGENT = ''mcp-da-live-admin'',
       ADMIN_API_URL = ''https://admin.da.live'',
       DA_ADMIN_API_TOKEN = Some ''token'',
       JSON_parse = (\<lambda>s. if s = ''{}'' then Some (JObject []) else None),
       JSON_stringify = (\<lambda>j. ''{}''),
       JSON_stringify_indent = (\<lambda>j. ''{}''),
       readFileSync = (\<lambda>p. Inr [137, 80, 78, 71]),
       network_of = net \<rparr>"

definition net_all_ok :: network where
  "net_all_ok t req = Inr \<lparr> resp_status = 200, resp_content_type = None, resp_text = [] \<rparr>"

definition net_preview_down :: network where
  "net_preview_down t req =
     (if req_url req = uploadUrl ''acme'' ''site'' ''assets/img.png''
      then Inr \<lparr> resp_status = 200, resp_content_type = None, resp_text = [] \<rparr>
      else Inl (Error ''TypeError'' ''Failed to fetch''))"

definition net_rejecting :: "string \<Rightarrow> network" where
  "net_rejecting message t req = Inl (Error ''Error'' message)"

definition net_status_500 :: network where
  "net_status_500 t req =
     Inr \<lparr> resp_status = 500, resp_content_type = Some ''application/json'', resp_text = [] \<rparr>"

definition net_blip_then_500 :: network where
  "net_blip_then_500 t req =
     (if fetched t = [] then Inl (Error ''TypeError'' ''Network error'')
      else Inr \<lparr> resp_status = 500, resp_content_type = None, resp_text = [] \<rparr>)"

section \<open>Properties of retryWithBackoff\<close>

lemma retry_first_success:
  "0 \<le> R \<Longrightarrow> fn t = (Inr v, t') \<Longrightarrow> retryWithBackoff fn R d t = (Inr v, 1, [], t')"
  unfolding retryWithBackoff_def by (subst retry_loop.simps) simp

lemma retry_first_non_transient:
  "0 \<le> R \<Longrightarrow> fn t = (Inl (Error name message), t') \<Longrightarrow> \<not> isRetryable message \<Longrightarrow>
   retryWithBackoff fn R d t = (Inl (Error name message), 1, [], t')"
  unfolding retryWithBackoff_def by (subst retry_loop.simps) simp

lemma retry_loop_exhaust:
  assumes "always_transient fn"
  shows "int k + int j = R \<Longrightarrow>
    retry_loop fn R d (int k) le c ds s =
      (fst (fn (trace_after_failures fn d k j s)), Suc (c + j),
       ds @ map (\<lambda>i. d * 2 ^ i) [k..<k + j],
       snd (fn (trace_after_failures fn d k j s)))"
proof (induction j arbitrary: k le c ds s)
  case 0
  obtain n m where f: "fst (fn s) = Inl (Error n m)" "isRetryable m"
    using assms unfolding always_transient_def by blast
  then obtain s' where "fn s = (Inl (Error n m), s')" by (cases "fn s") auto
  with 0 show ?case by (subst retry_loop.simps) auto
next
  case (Suc j)
  obtain n m where f: "fst (fn s) = Inl (Error n m)" "isRetryable m"
    using assms unfolding always_transient_def by blast
  then obtain s' where fs: "fn s = (Inl (Error n m), s')" by (cases "fn s") auto
  have ne: "int k \<noteq> R" "int k \<le> R" using Suc.prems by auto
  have step: "after_failure fn d k s = s' @ [Log (Log_retrying (Suc k) m (d * 2 ^ k)), Sleep (d * 2 ^ k)]"
    by (simp add: after_failure_def fs)
  have "int (Suc k) + int j = R" using Suc.prems by simp
  note IH = Suc.IH [OF this]
  have "retry_loop fn R d (int k) le c ds s =
        retry_loop fn R d (int (Suc k)) (Error n m) (Suc c) (ds @ [d * 2 ^ k])
          (s' @ [Log (Log_retrying (Suc k) m (d * 2 ^ k)), Sleep (d * 2 ^ k)])"
    using ne f fs by (simp add: retry_loop.simps [of fn R d "int k"] Let_def nat_add_distrib add.commute)
  also have "\<dots> = (fst (fn (trace_after_failures fn d (Suc k) j (after_failure fn d k s))),
       Suc (Suc c + j),
       (ds @ [d * 2 ^ k]) @ map (\<lambda>i. d * 2 ^ i) [Suc k..<Suc k + j],
       snd (fn (trace_after_failures fn d (Suc k) j (after_failure fn d k s))))"
    unfolding step by (rule IH)
  also have "\<dots> = (fst (fn (trace_after_failures fn d k (Suc j) s)), Suc (c + Suc j),
       ds @ map (\<lambda>i. d * 2 ^ i) [k..<k + Suc j],
       snd (fn (trace_after_failures fn d k (Suc j) s)))"
  proof -
    have "[k..<k + Suc j] = k # [Suc k..<Suc k + j]" by (subst upt_rec) simp
    then have l: "ds @ map (\<lambda>i. d * 2 ^ i) [k..<k + Suc j] =
        (ds @ [d * 2 ^ k]) @ map (\<lambda>i. d * 2 ^ i) [Suc k..<Suc k + j]"
      by (simp only: list.map append_assoc append_Cons append_Nil)
    have a: "Suc (Suc c + j) = Suc (c + Suc j)" by simp
    show ?thesis
      by (simp only: l a trace_after_failures.simps)
  qed
  finally show ?case .
qed

lemma slept_append: "slept (a @ b) = slept a @ slept b"
  by (induction a rule: slept.induct) simp_all

lemma retry_loop_stop:
  "attempt \<le> R \<Longrightarrow> fn t = (Inl (Error name message), t') \<Longrightarrow>
   \<not> isRetryable message \<or> attempt = R \<Longrightarrow>
   retry_loop fn R d attempt le calls delays t = (Inl (Error name message), Suc calls, delays, t')"
  by (subst retry_loop.simps) auto

lemma retry_loop_skip:
  "(\<forall>i<j. \<exists>name message. fst (fn (trace_after_failures fn d k i s)) = Inl (Error name message) \<and>
        isRetryable message) \<Longrightarrow>
   int k + int j \<le> R \<Longrightarrow>
   \<exists>le'. retry_loop fn R d (int k) le c ds s =
     retry_loop fn R d (int (k + j)) le' (c + j) (ds @ map (\<lambda>i. d * 2 ^ i) [k..<k + j])
       (trace_after_failures fn d k j s)"
proof (induction j arbitrary: k le c ds s)
  case 0
  then show ?case by auto
next
  case (Suc j)
  from Suc.prems(1) have "\<exists>name message. fst (fn (trace_after_failures fn d k 0 s)) =
      Inl (Error name message) \<and> isRetryable message" by blast
  then obtain n m where f: "fst (fn s) = Inl (Error n m)" "isRetryable m" by auto
  then obtain s' where fs: "fn s = (Inl (Error n m), s')" by (cases "fn s") auto
  have ne: "int k \<noteq> R" "int k \<le> R" using Suc.prems(2) by auto
  have step: "after_failure fn d k s =
      s' @ [Log (Log_retrying (Suc k) m (d * 2 ^ k)), Sleep (d * 2 ^ k)]"
    by (simp add: after_failure_def fs)
  have first: "retry_loop fn R d (int k) le c ds s =
        retry_loop fn R d (int (Suc k)) (Error n m) (Suc c) (ds @ [d * 2 ^ k])
          (after_failure fn d k s)"
    unfolding step using ne f fs
    by (simp add: retry_loop.simps [of fn R d "int k"] Let_def nat_add_distrib add.commute)
  have pre: "\<forall>i<j. \<exists>name message.
      fst (fn (trace_after_failures fn d (Suc k) i (after_failure fn d k s))) =
        Inl (Error name message) \<and> isRetryable message"
  proof (intro allI impI)
    fix i assume "i < j"
    then have "Suc i < Suc j" by simp
    with Suc.prems(1) have "\<exists>name message. fst (fn (trace_after_failures fn d k (Suc i) s)) =
      Inl (Error name message) \<and> isRetryable message" by blast
    then show "\<exists>name message.
      fst (fn (trace_after_failures fn d (Suc k) i (after_failure fn d k s))) =
        Inl (Error name message) \<and> isRetryable message" by simp
  qed
  have b: "int (Suc k) + int j \<le> R" using Suc.prems(2) by simp
  from Suc.IH [OF pre b, of "Error n m" "Suc c" "ds @ [d * 2 ^ k]"]
  obtain le' where IH: "retry_loop fn R d (int (Suc k)) (Error n m) (Suc c) (ds @ [d * 2 ^ k])
          (after_failure fn d k s) =
     retry_loop fn R d (int (Suc k + j)) le' (Suc c + j)
       ((ds @ [d * 2 ^ k]) @ map (\<lambda>i. d * 2 ^ i) [Suc k..<Suc k + j])
       (trace_after_failures fn d (Suc k) j (after_failure fn d k s))" by blast
  have l: "[k..<k + Suc j] = k # [Suc k..<Suc k + j]" by (subst upt_rec) simp
  have e1: "(ds @ [d * 2 ^ k]) @ map (\<lambda>i. d * 2 ^ i) [Suc k..<Suc k + j] =
        ds @ map (\<lambda>i. d * 2 ^ i) [k..<k + Suc j]"
    unfolding l by (simp only: list.map append_assoc append_Cons append_Nil)
  have e2: "Suc k + j = k + Suc j" "Suc c + j = c + Suc j" by simp_all
  have e3: "trace_after_failures fn d (Suc k) j (after_failure fn d k s) =
        trace_after_failures fn d k (Suc j) s" by simp
  note IH' = IH [unfolded e1, unfolded e2 e3]
  from first IH' have "retry_loop fn R d (int k) le c ds s =
     retry_loop fn R d (int (k + Suc j)) le' (c + Suc j)
       (ds @ map (\<lambda>i. d * 2 ^ i) [k..<k + Suc j])
       (trace_after_failures fn d k (Suc j) s)"
    by (rule trans)
  then show ?case by (rule exI)
qed

text \<open>
  C2. For every \<open>maxRetries = R \<ge> 0\<close> and every operation that fails on each
  invocation with an error classified transient, \<open>retryWithBackoff\<close> invokes the
  operation exactly \<open>R + 1\<close> times and then throws the error of the last invocation,
  having waited \<open>R\<close> times; with \<open>R = 0\<close> there is one attempt and no wait.
\<close>

theorem retryWithBackoff_transient_exhausts:
  assumes "0 \<le> R" and "always_transient fn"
  shows "invocations_of (retryWithBackoff fn R d t) = nat R + 1 \<and>
         outcome_of (retryWithBackoff fn R d t) =
           fst (fn (trace_after_failures fn d 0 (nat R) t)) \<and>
         isl (outcome_of (retryWithBackoff fn R d t)) \<and>
         delays_of (retryWithBackoff fn R d t) = map (\<lambda>i. d * 2 ^ i) [0..<nat R] \<and>
         (R = 0 \<longrightarrow> retryWithBackoff fn R d t = (fst (fn t), 1, [], snd (fn t)))"
proof -
  have "int 0 + int (nat R) = R" using assms(1) by simp
  from retry_loop_exhaust [OF assms(2) this, of d Undefined 0 "[]" t]
  have eq: "retryWithBackoff fn R d t =
      (fst (fn (trace_after_failures fn d 0 (nat R) t)), Suc (nat R),
       map (\<lambda>i. d * 2 ^ i) [0..<nat R],
       snd (fn (trace_after_failures fn d 0 (nat R) t)))"
    by (simp add: retryWithBackoff_def)
  obtain n m where "fst (fn (trace_after_failures fn d 0 (nat R) t)) = Inl (Error n m)"
    using assms(2) unfolding always_transient_def by blast
  with eq show ?thesis
    by (auto simp: invocations_of_def outcome_of_def delays_of_def)
qed

theorem retryWithBackoff_transient_exhausts_witness:
  "invocations_of (retryWithBackoff (throw_io (Error ''TypeError'' ''Failed to fetch'') :: unit io)
      3 1000 []) = 4 \<and>
   outcome_of (retryWithBackoff (throw_io (Error ''TypeError'' ''Failed to fetch'') :: unit io)
      3 1000 []) = Inl (Error ''TypeError'' ''Failed to fetch'') \<and>
   delays_of (retryWithBackoff (throw_io (Error ''TypeError'' ''Failed to fetch'') :: unit io)
      3 1000 []) = [1000, 2000, 4000]"
proof -
  have "isRetryable ''Failed to fetch''" by code_simp
  then have tr: "always_transient (throw_io (Error ''TypeError'' ''Failed to fetch'') :: unit io)"
    by (simp add: always_transient_def throw_io_def)
  have "[0..<nat 3] = [0, 1, 2]" by code_simp
  with retryWithBackoff_transient_exhausts [OF _ tr, of 3 1000 "[]"]
  show ?thesis by (simp add: throw_io_def)
qed

text \<open>
  C3. For every \<open>maxRetries = R \<ge> 0\<close>, if the operation fails with an error whose
  message is not classified transient, \<open>retryWithBackoff\<close> invokes the operation
  exactly once and throws that error at once, without a wait, whatever \<open>R\<close> is.
\<close>

theorem retryWithBackoff_non_transient:
  assumes "0 \<le> R" and "fn t = (Inl (Error name message), t')" and "\<not> isRetryable message"
  shows "retryWithBackoff fn R d t = (Inl (Error name message), 1, [], t')"
  using assms by (rule retry_first_non_transient)

theorem retryWithBackoff_non_transient_witness:
  "retryWithBackoff (throw_io (Error ''Error'' ''DA upload failed: 500'') :: unit io) 3 1000 [] =
     (Inl (Error ''Error'' ''DA upload failed: 500''), 1, [], [])"
proof -
  have n: "\<not> isRetryable ''DA upload failed: 500''" by code_simp
  have f: "(throw_io (Error ''Error'' ''DA upload failed: 500'') :: unit io) [] =
      (Inl (Error ''Error'' ''DA upload failed: 500''), [])"
    by (simp add: throw_io_def)
  from retryWithBackoff_non_transient
         [where fn = "throw_io (Error ''Error'' ''DA upload failed: 500'') :: unit io"
            and t = "[]" and R = 3 and d = 1000, OF _ f n]
  show ?thesis by simp
qed

lemma retry_loop_inv:
  "attempt = int calls \<Longrightarrow> delays = map (\<lambda>i. d * 2 ^ i) [0..<calls] \<Longrightarrow>
   retry_loop fn R d attempt le calls delays t = (r, c, ds, t') \<Longrightarrow>
   ds = map (\<lambda>i. d * 2 ^ i) [0..<length ds] \<and>
   (if attempt \<le> R then c = Suc (length ds) \<and> int (length ds) \<le> R else c = calls \<and> ds = delays)"
proof (induction fn R d attempt le calls delays t rule: retry_loop.induct)
  case (1 fn R d attempt le calls delays t)
  show ?case
  proof (cases "attempt \<le> R")
    case False
    with "1.prems" show ?thesis by (subst (asm) retry_loop.simps) auto
  next
    case le: True
    obtain x s where fs: "fn t = (x, s)" by (cases "fn t")
    show ?thesis
    proof (cases x)
      case (Inr v)
      with "1.prems" le fs show ?thesis by (subst (asm) retry_loop.simps) auto
    next
      case (Inl e)
      show ?thesis
      proof (cases e)
        case Undefined
        with "1.prems" le fs Inl show ?thesis by (subst (asm) retry_loop.simps) auto
      next
        case (Error n m)
        show ?thesis
        proof (cases "\<not> isRetryable m \<or> attempt = R")
          case True
          with "1.prems" le fs Inl Error show ?thesis by (subst (asm) retry_loop.simps) auto
        next
          case False
          let ?delay = "d * 2 ^ nat attempt"
          have run: "retry_loop fn R d (attempt + 1) e (Suc calls) (delays @ [?delay])
                  (s @ [Log (Log_retrying (nat (attempt + 1)) m ?delay), Sleep ?delay]) = (r, c, ds, t')"
            using "1.prems"(3) le fs Inl Error False by (subst (asm) retry_loop.simps) (simp add: Let_def)
          have a: "attempt + 1 = int (Suc calls)" using "1.prems"(1) by simp
          have b: "delays @ [?delay] = map (\<lambda>i. d * 2 ^ i) [0..<Suc calls]"
            using "1.prems"(1,2) by simp
          have le': "attempt + 1 \<le> R" using False le by simp
          from "1.IH" [OF le fs [symmetric] Inl Error False refl a b run] le' le
          show ?thesis by simp
        qed
      qed
    qed
  qed
qed



lemma retry_loop_trace:
  "attempt = int calls \<Longrightarrow> attempt \<le> R \<Longrightarrow>
   retry_loop fn R d attempt le calls delays t = (r, c, ds, t') \<Longrightarrow>
   calls < c \<and> t' = snd (fn (trace_after_failures fn d calls (c - 1 - calls) t))"
proof (induction fn R d attempt le calls delays t rule: retry_loop.induct)
  case (1 fn R d attempt le calls delays t)
  note a = "1.prems"(1) and le = "1.prems"(2) and run = "1.prems"(3)
  obtain x s where fs: "fn t = (x, s)" by (cases "fn t")
  show ?case
  proof (cases x)
    case (Inr v)
    with run le fs show ?thesis by (subst (asm) retry_loop.simps) auto
  next
    case (Inl e)
    show ?thesis
    proof (cases e)
      case Undefined
      with run le fs Inl show ?thesis by (subst (asm) retry_loop.simps) auto
    next
      case (Error n m)
      show ?thesis
      proof (cases "\<not> isRetryable m \<or> attempt = R")
        case True
        with run le fs Inl Error show ?thesis by (subst (asm) retry_loop.simps) auto
      next
        case False
        let ?delay = "d * 2 ^ nat attempt"
        let ?s = "s @ [Log (Log_retrying (nat (attempt + 1)) m ?delay), Sleep ?delay]"
        have run': "retry_loop fn R d (attempt + 1) e (Suc calls) (delays @ [?delay]) ?s =
            (r, c, ds, t')"
          using run le fs Inl Error False by (subst (asm) retry_loop.simps) (simp add: Let_def)
        have a': "attempt + 1 = int (Suc calls)" using a by simp
        have le': "attempt + 1 \<le> R" using False le by simp
        from "1.IH" [OF le fs [symmetric] Inl Error False refl a' le' run']
        have c: "Suc calls < c"
          and t: "t' = snd (fn (trace_after_failures fn d (Suc calls) (c - 1 - Suc calls) ?s))"
          by simp_all
        have af: "after_failure fn d calls t = ?s"
          using a by (simp add: after_failure_def fs Inl Error)
        have "c - 1 - calls = Suc (c - 1 - Suc calls)" using c by simp
        then have "trace_after_failures fn d calls (c - 1 - calls) t =
            trace_after_failures fn d (Suc calls) (c - 1 - Suc calls) ?s"
          by (simp only: trace_after_failures.simps af)
        with c t show ?thesis by simp
      qed
    qed
  qed
qed

lemma retry_loop_slept:
  "(\<And>s. slept (snd (fn s)) = slept s) \<Longrightarrow> slept t = base @ delays \<Longrightarrow>
   retry_loop fn R d attempt le calls delays t = (r, c, ds, t') \<Longrightarrow>
   slept t' = base @ ds"
proof (induction fn R d attempt le calls delays t rule: retry_loop.induct)
  case (1 fn R d attempt le calls delays t)
  note quiet = "1.prems"(1) and b = "1.prems"(2) and run = "1.prems"(3)
  show ?case
  proof (cases "attempt \<le> R")
    case False
    with run b show ?thesis by (subst (asm) retry_loop.simps) auto
  next
    case le: True
    obtain x s where fs: "fn t = (x, s)" by (cases "fn t")
    have ss: "slept s = base @ delays" using quiet [of t] fs b by simp
    show ?thesis
    proof (cases x)
      case (Inr v)
      with run le fs ss show ?thesis by (subst (asm) retry_loop.simps) auto
    next
      case (Inl e)
      show ?thesis
      proof (cases e)
        case Undefined
        with run le fs ss Inl show ?thesis by (subst (asm) retry_loop.simps) auto
      next
        case (Error n m)
        show ?thesis
        proof (cases "\<not> isRetryable m \<or> attempt = R")
          case True
          with run le fs ss Inl Error show ?thesis by (subst (asm) retry_loop.simps) auto
        next
          case False
          let ?delay = "d * 2 ^ nat attempt"
          let ?s = "s @ [Log (Log_retrying (nat (attempt + 1)) m ?delay), Sleep ?delay]"
          have run': "retry_loop fn R d (attempt + 1) e (Suc calls) (delays @ [?delay]) ?s =
              (r, c, ds, t')"
            using run le fs Inl Error False by (subst (asm) retry_loop.simps) (simp add: Let_def)
          have b': "slept ?s = base @ delays @ [?delay]" by (simp add: slept_append ss)
          from "1.IH" [OF le fs [symmetric] Inl Error False refl quiet b' run']
          show ?thesis .
        qed
      qed
    qed
  qed
qed

text \<open>
  C4, as amended. For \<open>maxRetries \<ge> 0\<close> and \<open>initialDelay > 0\<close> with
  \<open>initialDelay * 2 ^ maxRetries \<le> 2 ^ 53\<close>, every run of \<open>retryWithBackoff\<close> makes
  at least one and at most \<open>maxRetries + 1\<close> attempts, so the 0-based index of an
  attempt never exceeds \<open>maxRetries\<close>. The delay waited after attempt \<open>i\<close> failed,
  that is before attempt \<open>i + 1\<close>, equals \<open>initialDelay * 2 ^ i\<close>, and nothing is
  waited before attempt 0: the trace of the run is the trace of its failed attempts,
  each followed by its log line and its wait, and then the last attempt. The delays are
  strictly increasing, positive and exact; and when the operation itself does not wait,
  they are the waits the run adds to the trace.
\<close>

theorem retryWithBackoff_delays:
  assumes R: "0 \<le> R" and d: "0 < d" and exact: "d * 2 ^ nat R \<le> 2 ^ 53"
    and run: "retryWithBackoff fn R d t = (r, c, ds, t')"
  shows "1 \<le> c \<and> int c \<le> R + 1 \<and>
         ds = map (\<lambda>i. d * 2 ^ i) [0..<c - 1] \<and>
         t' = snd (fn (trace_after_failures fn d 0 (c - 1) t)) \<and>
         sorted_wrt (<) ds \<and>
         (\<forall>x\<in>set ds. 0 < x \<and> x \<le> 2 ^ 53) \<and>
         ((\<forall>s. slept (snd (fn s)) = slept s) \<longrightarrow> slept t' = slept t @ ds)"
proof -
  note loop = run [unfolded retryWithBackoff_def]
  from retry_loop_inv [OF _ _ loop] R
  have dsl: "ds = map (\<lambda>i. d * 2 ^ i) [0..<length ds]"
    and c: "c = Suc (length ds)" and len: "int (length ds) \<le> R"
    by simp_all
  have 1: "1 \<le> c" using c by simp
  have 2: "int c \<le> R + 1" using c len by simp
  have 3: "ds = map (\<lambda>i. d * 2 ^ i) [0..<c - 1]" using dsl c by simp
  from retry_loop_trace [OF _ _ loop] R
  have 4: "t' = snd (fn (trace_after_failures fn d 0 (c - 1) t))" by simp
  have nth: "ds ! i = d * 2 ^ i" if "i < length ds" for i
  proof -
    from that have "map (\<lambda>i. d * 2 ^ i) [0..<length ds] ! i = d * 2 ^ i" by simp
    with dsl show ?thesis by simp
  qed
  have mono: "d * 2 ^ i < d * 2 ^ j" if "i < j" for i j :: nat
  proof -
    have "(2::int) ^ i < 2 ^ j" using that by (simp add: power_strict_increasing)
    then show ?thesis using d by (rule mult_strict_left_mono)
  qed
  have 5: "sorted_wrt (<) ds" using nth mono by (simp add: sorted_wrt_iff_nth_less)
  have 6: "\<forall>x\<in>set ds. 0 < x \<and> x \<le> 2 ^ 53"
  proof
    fix x assume "x \<in> set ds"
    then obtain i where i: "i < length ds" "x = ds ! i" by (auto simp: in_set_conv_nth)
    with nth have x: "x = d * 2 ^ i" by simp
    have "i \<le> nat R" using i(1) len by simp
    then have "(2::int) ^ i \<le> 2 ^ nat R" by (simp add: power_increasing)
    then have "d * 2 ^ i \<le> d * 2 ^ nat R" using d by (simp add: mult_left_mono)
    from this exact have "d * 2 ^ i \<le> 2 ^ 53" by (rule order_trans)
    moreover have "0 < d * 2 ^ i" using d by simp
    ultimately show "0 < x \<and> x \<le> 2 ^ 53" unfolding x by (rule conjI [rotated])
  qed
  have 7: "(\<forall>s. slept (snd (fn s)) = slept s) \<longrightarrow> slept t' = slept t @ ds"
  proof
    assume q: "\<forall>s. slept (snd (fn s)) = slept s"
    have "slept t = slept t @ []" by simp
    from retry_loop_slept [OF _ this loop] q show "slept t' = slept t @ ds" by simp
  qed
  from 1 2 3 4 5 6 7 show ?thesis by blast
qed

theorem retryWithBackoff_delays_witness:
  "retryWithBackoff (throw_io (Error ''TypeError'' ''Network error'') :: unit io) 3 1000 [] =
     (Inl (Error ''TypeError'' ''Network error''), 4, [1000, 2000, 4000],
      [Log (Log_retrying 1 ''Network error'' 1000), Sleep 1000,
       Log (Log_retrying 2 ''Network error'' 2000), Sleep 2000,
       Log (Log_retrying 3 ''Network error'' 4000), Sleep 4000]) \<and>
   sorted_wrt (<) [1000, 2000, 4000 :: int] \<and>
   slept [Log (Log_retrying 1 ''Network error'' 1000), Sleep 1000,
          Log (Log_retrying 2 ''Network error'' 2000), Sleep 2000,
          Log (Log_retrying 3 ''Network error'' 4000), Sleep 4000] = [1000, 2000, 4000]"
proof -
  have run: "retryWithBackoff (throw_io (Error ''TypeError'' ''Network error'') :: unit io)
      3 1000 [] =
     (Inl (Error ''TypeError'' ''Network error''), 4, [1000, 2000, 4000],
      [Log (Log_retrying 1 ''Network error'' 1000), Sleep 1000,
       Log (Log_retrying 2 ''Network error'' 2000), Sleep 2000,
       Log (Log_retrying 3 ''Network error'' 4000), Sleep 4000])"
    by code_simp
  have R: "(0::int) \<le> 3" and d: "(0::int) < 1000" and exact: "(1000::int) * 2 ^ nat 3 \<le> 2 ^ 53"
    by simp_all
  have quiet: "\<forall>s. slept (snd ((throw_io (Error ''TypeError'' ''Network error'') :: unit io) s)) =
      slept s"
    by (simp add: throw_io_def)
  note c = retryWithBackoff_delays [OF R d exact run]
  from c have s: "sorted_wrt (<) [1000, 2000, 4000 :: int]" by blast
  from c quiet have w: "slept [Log (Log_retrying 1 ''Network error'' 1000), Sleep 1000,
          Log (Log_retrying 2 ''Network error'' 2000), Sleep 2000,
          Log (Log_retrying 3 ''Network error'' 4000), Sleep 4000] = slept [] @ [1000, 2000, 4000]"
    by blast
  from run s w show ?thesis by simp
qed

text \<open>
  C4 as first stated, at the program's own call for the preview trigger,
  \<open>retryWithBackoff(fn, 2, 500)\<close>, with every \<open>fetch\<close> rejected: the wait before
  attempt 1 is \<open>500\<close>, not \<open>500 * 2 ^ 1\<close>, nothing is waited before attempt 0, and
  three attempts are made, more than \<open>maxRetries = 2\<close>.
\<close>

theorem retryWithBackoff_delay_and_count_at_call_site:
  "retryWithBackoff
     (preview_step (example_env (net_rejecting ''Network error'')) ''acme'' ''site''
        ''assets/img.png'') 2 500 [] =
     (Inl (Error ''Error'' ''Network error''), 3, [500, 1000],
      [Fetch (trigger_request (example_env (net_rejecting ''Network error''))
                (previewUrl ''acme'' ''site'' ''assets/img.png'')),
       Log (Log_retrying 1 ''Network error'' 500), Sleep 500,
       Fetch (trigger_request (example_env (net_rejecting ''Network error''))
                (previewUrl ''acme'' ''site'' ''assets/img.png'')),
       Log (Log_retrying 2 ''Network error'' 1000), Sleep 1000,
       Fetch (trigger_request (example_env (net_rejecting ''Network error''))
                (previewUrl ''acme'' ''site'' ''assets/img.png''))]) \<and>
   (500 :: int) \<noteq> 500 * 2 ^ 1 \<and> \<not> (3 :: nat) \<le> 2"
  by code_simp

section \<open>Properties of utils.js\<close>

lemma startsWith_slash: "startsWith p ''/'' \<longleftrightarrow> (\<exists>q. p = CHR ''/'' # q)"
  by (cases p) (auto simp: startsWith_def)

text \<open>
  C9. For every \<open>api\<close>, \<open>org\<close>, \<open>repo\<close>, \<open>path\<close> and non-empty \<open>ext\<close>,
  \<open>formatURL\<close> produces a URL ending in \<open>.ext\<close>; it drops one leading \<open>/\<close> of
  \<open>path\<close> if there is one and nothing else, and appends \<open>.ext\<close> unless the path
  already ends with it; and a path that does not end with \<open>.ext\<close> gives the same URL
  with and without that suffix appended.
\<close>

theorem formatURL_ext:
  assumes "ext \<noteq> []"
  shows "endsWith (formatURL E api org repo path ext) (''.'' @ ext) \<and>
         formatURL E api org repo path ext =
           ADMIN_API_URL E @ ''/'' @ api @ ''/'' @ org @ ''/'' @ repo @ ''/'' @
           drop (if startsWith path ''/'' then 1 else 0) path @
           (if endsWith path (''.'' @ ext) then [] else ''.'' @ ext) \<and>
         (\<not> endsWith path (''.'' @ ext) \<longrightarrow>
            formatURL E api org repo path ext = formatURL E api org repo (path @ ''.'' @ ext) ext)"
proof -
  let ?e = "''.'' @ ext"
  let ?c = "if startsWith path ''/'' then drop 1 path else path"
  have suf: "endsWith ?c ?e \<longleftrightarrow> endsWith path ?e"
  proof (cases "startsWith path ''/''")
    case False then show ?thesis by simp
  next
    case True
    then obtain q where q: "path = CHR ''/'' # q" by (auto simp: startsWith_slash)
    have "suffix ?e (CHR ''/'' # q) \<longleftrightarrow> suffix ?e q"
      by (auto simp: suffix_Cons)
    with q True show ?thesis by (simp add: endsWith_def)
  qed
  have c2: "(if startsWith (path @ ?e) ''/'' then drop 1 (path @ ?e) else path @ ?e) = ?c @ ?e"
    by (cases path) (auto simp: startsWith_def)
  have e2: "endsWith (?c @ ?e) ?e" by (simp add: endsWith_def suffix_def)
  have eq: "formatURL E api org repo path ext =
      ADMIN_API_URL E @ ''/'' @ api @ ''/'' @ org @ ''/'' @ repo @ ''/'' @
      ?c @ (if endsWith path ?e then [] else ?e)"
    using assms suf by (simp add: formatURL_def Let_def)
  have eq2: "formatURL E api org repo (path @ ?e) ext =
      ADMIN_API_URL E @ ''/'' @ api @ ''/'' @ org @ ''/'' @ repo @ ''/'' @ ?c @ ?e"
    unfolding formatURL_def Let_def c2 using assms e2 by simp
  have ends: "endsWith (formatURL E api org repo path ext) ?e"
  proof (cases "endsWith path ?e")
    case True
    with suf have "suffix ?e ?c" by (simp add: endsWith_def)
    then have "suffix ?e (ADMIN_API_URL E @ ''/'' @ api @ ''/'' @ org @ ''/'' @ repo @ ''/'' @ ?c)"
      by (simp only: suffix_appendI)
    with True eq show ?thesis by (simp add: endsWith_def)
  next
    case False
    have "suffix ?e ((ADMIN_API_URL E @ ''/'' @ api @ ''/'' @ org @ ''/'' @ repo @ ''/'' @ ?c) @ ?e)"
      by (rule suffixI) simp
    with False eq show ?thesis by (simp add: endsWith_def)
  qed
  from ends eq eq2 show ?thesis by (simp split: if_splits)
qed

theorem formatURL_ext_witness:
  "formatURL (example_env net_all_ok) ''source'' ''acme'' ''site'' ''/docs/index'' ''html'' =
     ''https://admin.da.live/source/acme/site/docs/index.html'' \<and>
   formatURL (example_env net_all_ok) ''source'' ''acme'' ''site'' ''/docs/index.html'' ''html'' =
     ''https://admin.da.live/source/acme/site/docs/index.html''"
proof -
  have n: "\<not> endsWith ''/docs/index'' (''.'' @ ''html'')" by code_simp
  have s: "startsWith ''/docs/index'' ''/''" by code_simp
  have e: "''html'' \<noteq> []" by simp
  note f = formatURL_ext [OF e, of "example_env net_all_ok" "''source''" "''acme''" "''site''"
         "''/docs/index''"]
  from f [THEN conjunct2, THEN conjunct1] n s
  have A: "formatURL (example_env net_all_ok) ''source'' ''acme'' ''site''
      ''/docs/index'' ''html'' = ''https://admin.da.live/source/acme/site/docs/index.html''"
    by (simp add: example_env_def)
  note B = f [THEN conjunct2, THEN conjunct2, THEN mp, OF n]
  have B': "formatURL (example_env net_all_ok) ''source'' ''acme'' ''site'' ''/docs/index.html''
      ''html'' =
      formatURL (example_env net_all_ok) ''source'' ''acme'' ''site'' ''/docs/index'' ''html''"
    using B by simp
  from A B' show ?thesis by simp
qed

lemma fetched_append: "fetched (a @ b) = fetched a @ fetched b"
  by (induction a rule: fetched.induct) simp_all

lemma daAdminRequest_run:
  "daAdminRequest E url opts t =
     (case network_of E t (request_sent E url opts) of
        Inl e \<Rightarrow> Inl e
      | Inr r \<Rightarrow>
          if ok r then Inr (parseResponseBody E r)
          else Inl (Error ''Error'' (show_nat (resp_status r) @ '': '' @
                 (case parseResponseBody E r of JString s \<Rightarrow> s
                  | v \<Rightarrow> JSON_stringify E v))),
      t @ [Fetch (request_sent E url opts)])"
proof -
  define init where "init = \<lparr> req_url = url,
       req_method = (if truthy (opt_method opts) then the (opt_method opts) else ''GET''),
       req_headers = (if truthy (DA_ADMIN_API_TOKEN E)
                     then set_property ''Authorization''
                            (''Bearer '' @ the (DA_ADMIN_API_TOKEN E))
                            (spread (opt_headers opts) [(''User-Agent'', USER_AGENT E)])
                     else spread (opt_headers opts) [(''User-Agent'', USER_AGENT E)]),
       req_body = opt_body opts \<rparr>"
  define k where "k = (\<lambda>response.
           let responseBody = parseResponseBody E response
           in if \<not> ok response
              then (let errorMessage = (case responseBody of
                                          JString s \<Rightarrow> s
                                        | _ \<Rightarrow> JSON_stringify E responseBody)
                    in throw_io (Error ''Error''
                         (show_nat (resp_status response) @ '': '' @ errorMessage)))
              else return_io responseBody)"
  have d: "daAdminRequest E url opts = bind_io (fetch (network_of E) init) k"
    unfolding daAdminRequest_def Let_def init_def k_def by (rule refl)
  have tr: "snd (bind_io (fetch (network_of E) init) k s) = s @ [Fetch init]" for s
    by (cases "network_of E s init")
       (simp_all add: bind_io_def fetch_def k_def Let_def throw_io_def return_io_def)
  have "request_sent E url opts = init"
    unfolding request_sent_def d tr by simp
  then show ?thesis
    unfolding d
    by (cases "network_of E t init")
       (simp_all add: bind_io_def fetch_def k_def Let_def throw_io_def return_io_def
          split: json.splits)
qed

lemma request_sent_fields:
  "req_url (request_sent E url opts) = url \<and> req_body (request_sent E url opts) = opt_body opts"
proof -
  have "snd (daAdminRequest E url opts []) = [Fetch (request_sent E url opts)]"
    by (simp add: daAdminRequest_run)
  moreover have "\<exists>m h. snd (daAdminRequest E url opts []) =
      [Fetch \<lparr> req_url = url, req_method = m, req_headers = h, req_body = opt_body opts \<rparr>]"
    by (cases "network_of E [] \<lparr> req_url = url,
       req_method = (if truthy (opt_method opts) then the (opt_method opts) else ''GET''),
       req_headers = (if truthy (DA_ADMIN_API_TOKEN E)
                     then set_property ''Authorization''
                            (''Bearer '' @ the (DA_ADMIN_API_TOKEN E))
                            (spread (opt_headers opts) [(''User-Agent'', USER_AGENT E)])
                     else spread (opt_headers opts) [(''User-Agent'', USER_AGENT E)]),
       req_body = opt_body opts \<rparr>")
      (simp_all add: daAdminRequest_def Let_def bind_io_def fetch_def throw_io_def return_io_def)
  ultimately show ?thesis by auto
qed

text \<open>
  C8. In \<open>parseResponseBody\<close>, a response whose content type includes
  \<open>application/json\<close> and whose body \<open>JSON.parse\<close> rejects (an empty body, invalid
  JSON) parses to the empty object, and a response whose content type does not include
  \<open>application/json\<close> parses to its text. Once \<open>fetch\<close> has delivered a response,
  \<open>daAdminRequest\<close> throws exactly when the response is not ok, and the message is the
  status code, \<open>: \<close> and the parsed body (as it is when a string, else stringified).
\<close>

theorem daAdminRequest_parsing:
  "(\<forall>ct. resp_content_type r = Some ct \<and> str_includes ct ''application/json'' \<and>
         JSON_parse E (resp_text r) = None \<longrightarrow> parseResponseBody E r = JObject []) \<and>
   ((\<forall>ct. resp_content_type r = Some ct \<longrightarrow> \<not> str_includes ct ''application/json'') \<longrightarrow>
        parseResponseBody E r = JString (resp_text r)) \<and>
   (network_of E t (request_sent E url opts) = Inr r \<longrightarrow>
      (isl (fst (daAdminRequest E url opts t)) \<longleftrightarrow> \<not> ok r) \<and>
      (ok r \<longrightarrow> fst (daAdminRequest E url opts t) = Inr (parseResponseBody E r)) \<and>
      (\<not> ok r \<longrightarrow> fst (daAdminRequest E url opts t) =
         Inl (Error ''Error'' (show_nat (resp_status r) @ '': '' @
           (case parseResponseBody E r of JString s \<Rightarrow> s
            | _ \<Rightarrow> JSON_stringify E (parseResponseBody E r))))))"
proof -
  have a: "\<forall>ct. resp_content_type r = Some ct \<and> str_includes ct ''application/json'' \<and>
         JSON_parse E (resp_text r) = None \<longrightarrow> parseResponseBody E r = JObject []"
    by (simp add: parseResponseBody_def)
  have b: "(\<forall>ct. resp_content_type r = Some ct \<longrightarrow> \<not> str_includes ct ''application/json'') \<longrightarrow>
        parseResponseBody E r = JString (resp_text r)"
    by (simp add: parseResponseBody_def split: option.splits)
  have c: "network_of E t (request_sent E url opts) = Inr r \<longrightarrow>
      (isl (fst (daAdminRequest E url opts t)) \<longleftrightarrow> \<not> ok r) \<and>
      (ok r \<longrightarrow> fst (daAdminRequest E url opts t) = Inr (parseResponseBody E r)) \<and>
      (\<not> ok r \<longrightarrow> fst (daAdminRequest E url opts t) =
         Inl (Error ''Error'' (show_nat (resp_status r) @ '': '' @
           (case parseResponseBody E r of JString s \<Rightarrow> s
            | _ \<Rightarrow> JSON_stringify E (parseResponseBody E r)))))"
    by (simp add: daAdminRequest_run split: json.splits)
  from a b c show ?thesis by blast
qed

theorem daAdminRequest_parsing_witness:
  "parseResponseBody (example_env net_status_500)
      \<lparr> resp_status = 500, resp_content_type = Some ''application/json'', resp_text = [] \<rparr> =
     JObject [] \<and>
   parseResponseBody (example_env net_status_500)
      \<lparr> resp_status = 200, resp_content_type = Some ''text/html'', resp_text = ''<p>hi</p>'' \<rparr> =
     JString ''<p>hi</p>'' \<and>
   fst (daAdminRequest (example_env net_status_500)
          ''https://admin.da.live/source/acme/site/index.html''
          \<lparr> opt_method = None, opt_headers = [], opt_body = None \<rparr> []) =
     Inl (Error ''Error'' ''500: {}'')"
proof -
  let ?E = "example_env net_status_500"
  let ?r = "\<lparr> resp_status = 500, resp_content_type = Some ''application/json'', resp_text = [] \<rparr>"
  let ?h = "\<lparr> resp_status = 200, resp_content_type = Some ''text/html'', resp_text = ''<p>hi</p>'' \<rparr>"
  let ?url = "''https://admin.da.live/source/acme/site/index.html''"
  let ?opts = "\<lparr> opt_method = None, opt_headers = [], opt_body = None \<rparr>"
  have i: "str_includes ''application/json'' ''application/json''" by code_simp
  have j: "\<not> str_includes ''text/html'' ''application/json''" by code_simp
  have p: "JSON_parse ?E [] = None" by (simp add: example_env_def)
  have g: "JSON_stringify ?E (JObject []) = ''{}''" by (simp add: example_env_def)
  have n: "network_of ?E [] (request_sent ?E ?url ?opts) = Inr ?r"
    by (simp add: example_env_def net_status_500_def)
  have k: "\<not> ok ?r" by (simp add: ok_def)
  have s: "show_nat 500 = ''500''" by code_simp
  have a: "parseResponseBody ?E ?r = JObject []"
    using daAdminRequest_parsing [of ?r ?E "[]" ?url ?opts] i p by simp
  have b: "parseResponseBody ?E ?h = JString ''<p>hi</p>''"
    using daAdminRequest_parsing [of ?h ?E "[]" ?url ?opts] j by simp
  have c: "fst (daAdminRequest ?E ?url ?opts []) = Inl (Error ''Error'' ''500: {}'')"
    using daAdminRequest_parsing [of ?r ?E "[]" ?url ?opts] n k a g s by simp
  from a b c show ?thesis by simp
qed

section \<open>Properties of createSource\<close>

text \<open>
  C10. \<open>createSource\<close> sends one request, to the URL of \<open>formatURL\<close>, whose blob has
  the type \<open>text/html\<close> exactly when \<open>ext\<close> is \<open>html\<close> and \<open>application/json\<close> for
  every other \<open>ext\<close>; no \<open>ext\<close> is rejected: \<open>createSource\<close> throws exactly when
  \<open>fetch\<close> rejects or the response is not ok.
\<close>

theorem createSource_blob_type:
  "\<exists>req. fetched (snd (createSource E org repo path ext content [])) = [req] \<and>
     req_url req = formatURL E ''source'' org repo path ext \<and>
     req_body req = Some [\<lparr> entry_name = ''data'',
        entry_blob = \<lparr> blob_parts = [Text_part content],
                       blob_type = Mime (if ext = ''html'' then ''text/html''
                                         else ''application/json'') \<rparr>,
        entry_filename = None \<rparr>] \<and>
     (isl (fst (createSource E org repo path ext content [])) \<longleftrightarrow>
        (case network_of E [] req of Inl e \<Rightarrow> True | Inr r \<Rightarrow> \<not> ok r))"
proof -
  define url where "url = formatURL E ''source'' org repo path ext"
  define opts where "opts = \<lparr> opt_method = Some ''POST'', opt_headers = [],
     opt_body = Some [\<lparr> entry_name = ''data'',
        entry_blob = \<lparr> blob_parts = [Text_part content],
                       blob_type = Mime (if ext = ''html'' then ''text/html''
                                         else ''application/json'') \<rparr>,
        entry_filename = None \<rparr>] \<rparr>"
  define req where "req = request_sent E url opts"
  have cs: "createSource E org repo path ext content =
     catch_io (bind_io (daAdminRequest E url opts) (\<lambda>data. return_io (daAdminResponseFormat E data)))
       (\<lambda>error. then_io (console_error (Log_thrown error)) (throw_io error))"
    unfolding createSource_def Let_def url_def opts_def by (rule refl)
  have f: "fetched (snd (createSource E org repo path ext content [])) = [req]"
    unfolding cs req_def
    by (simp add: catch_io_def bind_io_def then_io_def console_error_def throw_io_def
        return_io_def daAdminRequest_run fetched_append split: sum.splits)
  have i: "isl (fst (createSource E org repo path ext content [])) \<longleftrightarrow>
        (case network_of E [] req of Inl e \<Rightarrow> True | Inr r \<Rightarrow> \<not> ok r)"
    unfolding cs req_def
    by (simp add: catch_io_def bind_io_def then_io_def console_error_def throw_io_def
        return_io_def daAdminRequest_run split: sum.splits)
  have u: "req_url req = formatURL E ''source'' org repo path ext"
    unfolding req_def url_def by (simp add: request_sent_fields)
  have b: "req_body req = Some [\<lparr> entry_name = ''data'',
        entry_blob = \<lparr> blob_parts = [Text_part content],
                       blob_type = Mime (if ext = ''html'' then ''text/html''
                                         else ''application/json'') \<rparr>,
        entry_filename = None \<rparr>]"
    unfolding req_def by (simp add: request_sent_fields opts_def)
  from f u b i show ?thesis by blast
qed

theorem createSource_blob_type_witness:
  "\<exists>req. fetched (snd (createSource (example_env net_all_ok) ''acme'' ''site'' ''/docs/index''
             ''md'' ''# title'' [])) = [req] \<and>
     req_body req = Some [\<lparr> entry_name = ''data'',
        entry_blob = \<lparr> blob_parts = [Text_part ''# title''],
                       blob_type = Mime ''application/json'' \<rparr>,
        entry_filename = None \<rparr>] \<and>
     \<not> isl (fst (createSource (example_env net_all_ok) ''acme'' ''site'' ''/docs/index''
             ''md'' ''# title'' []))"
proof -
  have k: "ok \<lparr> resp_status = 200, resp_content_type = None, resp_text = [] \<rparr>"
    by (simp add: ok_def)
  have n: "network_of (example_env net_all_ok) [] req =
      Inr \<lparr> resp_status = 200, resp_content_type = None, resp_text = [] \<rparr>" for req
    by (simp add: example_env_def net_all_ok_def)
  from createSource_blob_type [of "example_env net_all_ok" "''acme''" "''site''" "''/docs/index''"
      "''md''" "''# title''"]
  obtain req where f: "fetched (snd (createSource (example_env net_all_ok) ''acme'' ''site''
             ''/docs/index'' ''md'' ''# title'' [])) = [req]"
    and b: "req_body req = Some [\<lparr> entry_name = ''data'',
        entry_blob = \<lparr> blob_parts = [Text_part ''# title''],
                       blob_type = Mime (if ''md'' = ''html'' then ''text/html''
                                         else ''application/json'') \<rparr>,
        entry_filename = None \<rparr>]"
    and i: "isl (fst (createSource (example_env net_all_ok) ''acme'' ''site'' ''/docs/index''
             ''md'' ''# title'' [])) \<longleftrightarrow>
        (case network_of (example_env net_all_ok) [] req of Inl e \<Rightarrow> True | Inr r \<Rightarrow> \<not> ok r)"
    by blast
  from i have i': "\<not> isl (fst (createSource (example_env net_all_ok) ''acme'' ''site''
      ''/docs/index'' ''md'' ''# title'' []))"
    by (simp add: n k)
  from b have b': "req_body req = Some [\<lparr> entry_name = ''data'',
        entry_blob = \<lparr> blob_parts = [Text_part ''# title''],
                       blob_type = Mime ''application/json'' \<rparr>,
        entry_filename = None \<rparr>]"
    by simp
  from f b' i' show ?thesis by blast
qed

section \<open>Properties of uploadAsset\<close>

lemma digit_char_digit: "d < 10 \<Longrightarrow> digit_char d \<in> set ''0123456789''"
  unfolding digit_char_def by (rule nth_mem) simp

lemma set_show_nat: "set (show_nat n) \<subseteq> set ''0123456789''"
proof (induction n rule: show_nat.induct)
  case (1 n)
  show ?case
  proof (cases "n < 10")
    case True
    have "show_nat n = [digit_char n]" using True by (subst show_nat.simps) simp
    then show ?thesis using digit_char_digit [OF True] by simp
  next
    case False
    have e: "show_nat n = show_nat (n div 10) @ [digit_char (n mod 10)]"
      using False by (subst show_nat.simps) simp
    have "n mod 10 < 10" by simp
    from digit_char_digit [OF this] "1.IH" [OF False]
    show ?thesis unfolding e by simp
  qed
qed


lemma not_includes: "c \<in> set k \<Longrightarrow> c \<notin> set s \<Longrightarrow> \<not> str_includes s k"
  unfolding str_includes_def using set_mono_sublist by blast

lemma upper_not_in_upload_failed:
  assumes "c \<in> set ''FSTNE''"
  shows "c \<notin> set (''DA upload failed: '' @ show_nat n)"
proof -
  have 1: "c \<notin> set ''DA upload failed: ''" using assms by auto
  have "c \<notin> set ''0123456789''" using assms by auto
  with set_show_nat [of n] have 2: "c \<notin> set (show_nat n)" by blast
  from 1 2 show ?thesis unfolding set_append by blast
qed

lemma upload_failed_message:
  "\<not> isRetryable (''DA upload failed: '' @ show_nat n) \<and>
   \<not> str_includes (''DA upload failed: '' @ show_nat n) ''Failed to fetch'' \<and>
   \<not> str_includes (''DA upload failed: '' @ show_nat n) ''SSL'' \<and>
   \<not> str_includes (''DA upload failed: '' @ show_nat n) ''TLS''"
proof -
  let ?m = "''DA upload failed: '' @ show_nat n"
  have F: "CHR ''F'' \<notin> set ?m" by (rule upper_not_in_upload_failed) simp
  have S: "CHR ''S'' \<notin> set ?m" by (rule upper_not_in_upload_failed) simp
  have T: "CHR ''T'' \<notin> set ?m" by (rule upper_not_in_upload_failed) simp
  have N: "CHR ''N'' \<notin> set ?m" by (rule upper_not_in_upload_failed) simp
  have E: "CHR ''E'' \<notin> set ?m" by (rule upper_not_in_upload_failed) simp
  have 1: "\<not> str_includes ?m ''Failed to fetch''" by (rule not_includes [OF _ F]) simp
  have 2: "\<not> str_includes ?m ''SSL''" by (rule not_includes [OF _ S]) simp
  have 3: "\<not> str_includes ?m ''TLS''" by (rule not_includes [OF _ T]) simp
  have 4: "\<not> str_includes ?m ''Network''" by (rule not_includes [OF _ N]) simp
  have 5: "\<not> str_includes ?m ''ECONNRESET''" by (rule not_includes [OF _ E]) simp
  from 1 2 3 4 5 show ?thesis unfolding isRetryable_def by blast
qed

lemma retry_loop_fetched:
  "(\<And>s. fetched (snd (fn s)) = fetched s @ [req]) \<Longrightarrow>
   retry_loop fn R d attempt le calls delays t = (r, c, ds, t') \<Longrightarrow>
   calls \<le> c \<and> fetched t' = fetched t @ replicate (c - calls) req"
proof (induction fn R d attempt le calls delays t rule: retry_loop.induct)
  case (1 fn R d attempt le calls delays t)
  note step1 = "1.prems"(1) and run = "1.prems"(2)
  show ?case
  proof (cases "attempt \<le> R")
    case False
    with run show ?thesis by (subst (asm) retry_loop.simps) auto
  next
    case le: True
    obtain x s where fs: "fn t = (x, s)" by (cases "fn t")
    have fsn: "fetched s = fetched t @ [req]" using step1 [of t] fs by simp
    show ?thesis
    proof (cases x)
      case (Inr v)
      with run le fs fsn show ?thesis by (subst (asm) retry_loop.simps) auto
    next
      case (Inl e)
      show ?thesis
      proof (cases e)
        case Undefined
        with run le fs fsn Inl show ?thesis by (subst (asm) retry_loop.simps) auto
      next
        case (Error n m)
        show ?thesis
        proof (cases "\<not> isRetryable m \<or> attempt = R")
          case True
          with run le fs fsn Inl Error show ?thesis by (subst (asm) retry_loop.simps) auto
        next
          case False
          let ?delay = "d * 2 ^ nat attempt"
          let ?s = "s @ [Log (Log_retrying (nat (attempt + 1)) m ?delay), Sleep ?delay]"
          have run': "retry_loop fn R d (attempt + 1) e (Suc calls) (delays @ [?delay]) ?s = (r, c, ds, t')"
            using run le fs Inl Error False by (subst (asm) retry_loop.simps) (simp add: Let_def)
          from "1.IH" [OF le fs [symmetric] Inl Error False refl step1 run']
          have c: "Suc calls \<le> c" and f: "fetched t' = fetched ?s @ replicate (c - Suc calls) req"
            by simp_all
          have "fetched ?s = fetched t @ [req]" by (simp add: fetched_append fsn)
          moreover have "replicate (c - calls) req = req # replicate (c - Suc calls) req"
            using c by (cases "c - calls") (simp_all add: Suc_diff_le)
          ultimately show ?thesis using c f by simp
        qed
      qed
    qed
  qed
qed

lemma upload_step_run:
  "upload_step E org repo path buf m s =
     (case network_of E s (upload_request E org repo path buf m) of
        Inl e \<Rightarrow> (Inl e, s @ [Fetch (upload_request E org repo path buf m)])
      | Inr r \<Rightarrow>
          if ok r
          then (Inr (), s @ [Fetch (upload_request E org repo path buf m),
                             Log (Log_asset_uploaded path)])
          else (Inl (Error ''Error'' (''DA upload failed: '' @ show_nat (resp_status r))),
                s @ [Fetch (upload_request E org repo path buf m),
                     Log (Log_upload_failed (resp_status r) (resp_text r))]))"
  by (simp add: upload_step_def bind_io_def then_io_def fetch_def console_error_def throw_io_def
      split: sum.splits)

lemma upload_step_fetched:
  "fetched (snd (upload_step E org repo path buf m s)) =
     fetched s @ [upload_request E org repo path buf m]"
  by (simp add: upload_step_run fetched_append split: sum.splits)

lemma uploadAsset_catch_run:
  "isl (fst (uploadAsset_catch e s)) \<and> fetched (snd (uploadAsset_catch e s)) = fetched s"
  by (cases e)
     (simp_all add: uploadAsset_catch_def then_io_def bind_io_def console_error_def throw_io_def
        fetched_append)

lemma uploadAsset_catch_Error:
  "fst (uploadAsset_catch (Error name message) s) =
     Inl (Error ''Error''
       (if str_includes message ''Failed to fetch'' \<or> str_includes message ''SSL'' \<or>
           str_includes message ''TLS''
        then network_error_message message
        else ''Failed to upload asset to DA: '' @ message))"
  by (simp add: uploadAsset_catch_def then_io_def bind_io_def console_error_def throw_io_def)

lemma uploadAsset_upload_throws:
  assumes "readFileSync E localFilePath = Inr fileBuffer"
    and "retryWithBackoff
           (upload_step E org repo path fileBuffer (resolve_mimeType contentType localFilePath))
           3 1000 (upload_prefix org repo path localFilePath (length fileBuffer)) = (Inl e, c, ds, s)"
  shows "uploadAsset E org repo path localFilePath contentType [] = uploadAsset_catch e s"
  using assms
  by (simp add: uploadAsset_def uploadAsset_try_def then_io_def bind_io_def catch_io_def
      console_error_def await_retry_def Let_def upload_prefix_def)

lemma uploadAsset_try_throws:
  "fst (uploadAsset_try E org repo path localFilePath contentType [Log (Log_uploading_asset path)])
     = Inl e \<Longrightarrow>
   fst (uploadAsset E org repo path localFilePath contentType []) =
     fst (uploadAsset_catch e
       (snd (uploadAsset_try E org repo path localFilePath contentType
          [Log (Log_uploading_asset path)])))"
  by (cases "uploadAsset_try E org repo path localFilePath contentType [Log (Log_uploading_asset path)]")
     (simp add: uploadAsset_def then_io_def bind_io_def catch_io_def console_error_def)

lemma upload_urls_differ:
  "req_url (upload_request E org repo path buf m) \<noteq> previewUrl org repo path \<and>
   req_url (upload_request E org repo path buf m) \<noteq> publishUrl org repo path"
  by (simp add: upload_request_def Let_def uploadUrl_def previewUrl_def publishUrl_def)

lemma uploadAsset_catch_Error_run:
  "uploadAsset_catch (Error name message) s =
     (Inl (Error ''Error''
        (if str_includes message ''Failed to fetch'' \<or> str_includes message ''SSL'' \<or>
            str_includes message ''TLS''
         then network_error_message message
         else ''Failed to upload asset to DA: '' @ message)),
      s @ [Log (Log_failed (Error name message)), Log (Log_error_details name message)])"
  by (simp add: uploadAsset_catch_def then_io_def bind_io_def console_error_def throw_io_def)

text \<open>
  C6. Let the file be read, let the first \<open>k \<le> 3\<close> fetches of the upload request be
  rejected with errors classified transient, so that each is retried, and let attempt
  \<open>k\<close> fail for good: either its response is not ok, at whichever attempt that is, or
  its \<open>fetch\<close> is rejected with an error that is not classified transient, or is
  rejected at all at \<open>k = 3\<close>, the retries being exhausted. Then \<open>uploadAsset\<close>
  throws and returns no result; the requests it made are \<open>k + 1\<close> times the upload
  request and nothing else, so the preview and publish URLs are never fetched; and for a
  response that is not ok the error thrown carries the status code.
\<close>

theorem uploadAsset_upload_failure_aborts:
  assumes read: "readFileSync E localFilePath = Inr fileBuffer"
    and req: "req = upload_request E org repo path fileBuffer
                      (resolve_mimeType contentType localFilePath)"
    and S: "S = upload_attempt_trace E org repo path localFilePath contentType fileBuffer"
    and k: "k \<le> 3"
    and retried: "\<forall>j<k. \<exists>name message.
                    network_of E (S j) req = Inl (Error name message) \<and> isRetryable message"
    and fatal: "(\<exists>r. network_of E (S k) req = Inr r \<and> \<not> ok r) \<or>
                (\<exists>name message. network_of E (S k) req = Inl (Error name message) \<and>
                    (k = 3 \<or> \<not> isRetryable message))"
  shows "isl (fst (uploadAsset E org repo path localFilePath contentType [])) \<and>
         fetched (snd (uploadAsset E org repo path localFilePath contentType [])) =
           replicate (Suc k) req \<and>
         req_url req \<noteq> previewUrl org repo path \<and>
         req_url req \<noteq> publishUrl org repo path \<and>
         (\<forall>r. network_of E (S k) req = Inr r \<longrightarrow>
            fst (uploadAsset E org repo path localFilePath contentType []) =
              Inl (Error ''Error''
                 (''Failed to upload asset to DA: DA upload failed: '' @
                    show_nat (resp_status r))))"
proof -
  let ?up = "upload_step E org repo path fileBuffer (resolve_mimeType contentType localFilePath)"
  let ?t4 = "upload_prefix org repo path localFilePath (length fileBuffer)"
  let ?U = "uploadAsset E org repo path localFilePath contentType []"
  have Sj: "S j = trace_after_failures ?up 1000 0 j ?t4" for j
    by (simp add: S upload_attempt_trace_def)
  have pre: "\<forall>i<k. \<exists>name message.
      fst (?up (trace_after_failures ?up 1000 0 i ?t4)) = Inl (Error name message) \<and>
      isRetryable message"
  proof (intro allI impI)
    fix i assume "i < k"
    with retried obtain n m where "network_of E (S i) req = Inl (Error n m)" "isRetryable m"
      by blast
    then show "\<exists>name message.
      fst (?up (trace_after_failures ?up 1000 0 i ?t4)) = Inl (Error name message) \<and>
      isRetryable message"
      by (auto simp: upload_step_run req [symmetric] Sj [symmetric])
  qed
  have "int 0 + int k \<le> 3" using k by simp
  from retry_loop_skip [OF pre this, of Undefined 0 "[]"]
  obtain le' where skip: "retryWithBackoff ?up 3 1000 ?t4 =
      retry_loop ?up 3 1000 (int k) le' k (map (\<lambda>i. 1000 * 2 ^ i) [0..<k]) (S k)"
    by (auto simp: retryWithBackoff_def Sj)
  have last: "\<exists>n m s'. ?up (S k) = (Inl (Error n m), s') \<and> (\<not> isRetryable m \<or> int k = 3) \<and>
      (\<forall>r. network_of E (S k) req = Inr r \<longrightarrow>
         n = ''Error'' \<and> m = ''DA upload failed: '' @ show_nat (resp_status r))"
    using fatal
  proof
    assume "\<exists>r. network_of E (S k) req = Inr r \<and> \<not> ok r"
    then obtain r where r: "network_of E (S k) req = Inr r" "\<not> ok r" by blast
    have "\<not> isRetryable (''DA upload failed: '' @ show_nat (resp_status r))"
      using upload_failed_message by blast
    with r show ?thesis by (simp add: upload_step_run req [symmetric])
  next
    assume "\<exists>name message. network_of E (S k) req = Inl (Error name message) \<and>
                    (k = 3 \<or> \<not> isRetryable message)"
    then obtain n m where r: "network_of E (S k) req = Inl (Error n m)"
      "k = 3 \<or> \<not> isRetryable m" by blast
    then show ?thesis by (auto simp: upload_step_run req [symmetric])
  qed
  then obtain n m s' where up: "?up (S k) = (Inl (Error n m), s')"
    and stop: "\<not> isRetryable m \<or> int k = 3"
    and st: "\<forall>r. network_of E (S k) req = Inr r \<longrightarrow>
         n = ''Error'' \<and> m = ''DA upload failed: '' @ show_nat (resp_status r)"
    by blast
  have "int k \<le> 3" using k by simp
  from retry_loop_stop [where fn = ?up and t = "S k", OF this up stop] skip
  have run: "retryWithBackoff ?up 3 1000 ?t4 =
      (Inl (Error n m), Suc k, map (\<lambda>i. 1000 * 2 ^ i) [0..<k], s')"
    by simp
  have U: "?U = uploadAsset_catch (Error n m) s'"
    using uploadAsset_upload_throws [OF read run] .
  have step: "fetched (snd (?up s)) = fetched s @ [req]" for s
    unfolding req by (rule upload_step_fetched)
  have "fetched s' = fetched ?t4 @ replicate (Suc k - 0) req"
    using retry_loop_fetched [OF step run [unfolded retryWithBackoff_def]] by simp
  then have fs: "fetched s' = replicate (Suc k) req" by (simp add: upload_prefix_def)
  have 1: "isl (fst ?U)" unfolding U using uploadAsset_catch_run by blast
  have 2: "fetched (snd ?U) = replicate (Suc k) req"
    unfolding U using uploadAsset_catch_run fs by metis
  have 3: "req_url req \<noteq> previewUrl org repo path \<and> req_url req \<noteq> publishUrl org repo path"
    unfolding req by (rule upload_urls_differ)
  have 4: "\<forall>r. network_of E (S k) req = Inr r \<longrightarrow>
            fst ?U = Inl (Error ''Error''
                 (''Failed to upload asset to DA: DA upload failed: '' @
                    show_nat (resp_status r)))"
  proof (intro allI impI)
    fix r assume "network_of E (S k) req = Inr r"
    with st have e: "n = ''Error''" "m = ''DA upload failed: '' @ show_nat (resp_status r)"
      by auto
    show "fst ?U = Inl (Error ''Error''
                 (''Failed to upload asset to DA: DA upload failed: '' @
                    show_nat (resp_status r)))"
      unfolding U e uploadAsset_catch_Error
      using upload_failed_message [of "resp_status r"] by simp
  qed
  from 1 2 3 4 show ?thesis by blast
qed

theorem uploadAsset_upload_failure_aborts_witness:
  "fst (uploadAsset (example_env net_blip_then_500) ''acme'' ''site'' ''assets/img.png''
          ''./dam/img.png'' None []) =
     Inl (Error ''Error'' ''Failed to upload asset to DA: DA upload failed: 500'') \<and>
   length (fetched (snd (uploadAsset (example_env net_blip_then_500) ''acme'' ''site''
          ''assets/img.png'' ''./dam/img.png'' None []))) = 2"
proof -
  let ?E = "example_env net_blip_then_500"
  let ?req = "upload_request ?E ''acme'' ''site'' ''assets/img.png'' [137, 80, 78, 71]
                (resolve_mimeType None ''./dam/img.png'')"
  let ?S = "upload_attempt_trace ?E ''acme'' ''site'' ''assets/img.png'' ''./dam/img.png'' None
              [137, 80, 78, 71]"
  let ?r = "\<lparr> resp_status = 500, resp_content_type = None, resp_text = [] \<rparr>"
  have read: "readFileSync ?E ''./dam/img.png'' = Inr [137, 80, 78, 71]"
    by (simp add: example_env_def)
  have n0: "network_of ?E (?S 0) ?req = Inl (Error ''TypeError'' ''Network error'')"
    by code_simp
  have i0: "isRetryable ''Network error''" by code_simp
  have n1: "network_of ?E (?S 1) ?req = Inr ?r" by code_simp
  have k1: "\<not> ok ?r" by (simp add: ok_def)
  have retried: "\<forall>j<1. \<exists>name message.
      network_of ?E (?S j) ?req = Inl (Error name message) \<and> isRetryable message"
    using n0 i0 by simp
  have fatal: "(\<exists>r. network_of ?E (?S 1) ?req = Inr r \<and> \<not> ok r) \<or>
      (\<exists>name message. network_of ?E (?S 1) ?req = Inl (Error name message) \<and>
          ((1::nat) = 3 \<or> \<not> isRetryable message))"
    using n1 k1 by blast
  have le: "(1::nat) \<le> 3" by simp
  have s: "show_nat 500 = ''500''" by code_simp
  note c = uploadAsset_upload_failure_aborts [OF read refl refl le retried fatal]
  from c [THEN conjunct2, THEN conjunct2, THEN conjunct2, THEN conjunct2, THEN spec, THEN mp, OF n1]
  have a: "fst (uploadAsset ?E ''acme'' ''site'' ''assets/img.png'' ''./dam/img.png'' None []) =
     Inl (Error ''Error'' ''Failed to upload asset to DA: DA upload failed: 500'')"
    by (simp add: s)
  from c [THEN conjunct2, THEN conjunct1]
  have b: "length (fetched (snd (uploadAsset ?E ''acme'' ''site'' ''assets/img.png''
      ''./dam/img.png'' None []))) = 2"
    by simp
  from a b show ?thesis by (rule conjI)
qed

text \<open>
  C5, as amended. Every \<open>Error\<close> thrown inside the \<open>try\<close> block of \<open>uploadAsset\<close>,
  in particular one that \<open>retryWithBackoff\<close> throws for the upload step, is replaced
  before it reaches the caller: if its message contains \<open>Failed to fetch\<close>, \<open>SSL\<close> or
  \<open>TLS\<close>, by the diagnostic message that lists the probable causes and quotes the
  original message; otherwise by the original message prefixed with
  \<open>Failed to upload asset to DA: \<close>.
\<close>

theorem uploadAsset_error_wrapping:
  "(fst (uploadAsset_try E org repo path localFilePath contentType
           [Log (Log_uploading_asset path)]) = Inl (Error name message) \<longrightarrow>
    fst (uploadAsset E org repo path localFilePath contentType []) =
      Inl (Error ''Error''
        (if str_includes message ''Failed to fetch'' \<or> str_includes message ''SSL'' \<or>
            str_includes message ''TLS''
         then network_error_message message
         else ''Failed to upload asset to DA: '' @ message))) \<and>
   (readFileSync E localFilePath = Inr fileBuffer \<and>
    outcome_of (retryWithBackoff
      (upload_step E org repo path fileBuffer (resolve_mimeType contentType localFilePath))
      3 1000 (upload_prefix org repo path localFilePath (length fileBuffer))) =
      Inl (Error name message) \<longrightarrow>
    fst (uploadAsset E org repo path localFilePath contentType []) =
      Inl (Error ''Error''
        (if str_includes message ''Failed to fetch'' \<or> str_includes message ''SSL'' \<or>
            str_includes message ''TLS''
         then network_error_message message
         else ''Failed to upload asset to DA: '' @ message)))"
proof (intro conjI impI)
  assume "fst (uploadAsset_try E org repo path localFilePath contentType
           [Log (Log_uploading_asset path)]) = Inl (Error name message)"
  from uploadAsset_try_throws [OF this]
  show "fst (uploadAsset E org repo path localFilePath contentType []) =
      Inl (Error ''Error''
        (if str_includes message ''Failed to fetch'' \<or> str_includes message ''SSL'' \<or>
            str_includes message ''TLS''
         then network_error_message message
         else ''Failed to upload asset to DA: '' @ message))"
    by (simp only: uploadAsset_catch_Error)
next
  let ?run = "retryWithBackoff
      (upload_step E org repo path fileBuffer (resolve_mimeType contentType localFilePath))
      3 1000 (upload_prefix org repo path localFilePath (length fileBuffer))"
  assume a: "readFileSync E localFilePath = Inr fileBuffer \<and>
    outcome_of ?run = Inl (Error name message)"
  obtain x c ds s where r: "?run = (x, c, ds, s)" by (cases ?run) auto
  with a have "x = Inl (Error name message)" by (simp add: outcome_of_def)
  with r have "?run = (Inl (Error name message), c, ds, s)" by simp
  from uploadAsset_upload_throws [OF conjunct1 [OF a] this]
  show "fst (uploadAsset E org repo path localFilePath contentType []) =
      Inl (Error ''Error''
        (if str_includes message ''Failed to fetch'' \<or> str_includes message ''SSL'' \<or>
            str_includes message ''TLS''
         then network_error_message message
         else ''Failed to upload asset to DA: '' @ message))"
    by (simp only: uploadAsset_catch_Error)
qed

theorem uploadAsset_error_wrapping_witness:
  "fst (uploadAsset (example_env (net_rejecting ''SSL routines: bad record mac''))
          ''acme'' ''site'' ''assets/img.png'' ''./dam/img.png'' None []) =
     Inl (Error ''Error'' (network_error_message ''SSL routines: bad record mac''))"
proof -
  have h: "fst (uploadAsset_try (example_env (net_rejecting ''SSL routines: bad record mac''))
          ''acme'' ''site'' ''assets/img.png'' ''./dam/img.png'' None
          [Log (Log_uploading_asset ''assets/img.png'')]) =
        Inl (Error ''Error'' ''SSL routines: bad record mac'')"
    by code_simp
  have i: "str_includes ''SSL routines: bad record mac'' ''SSL''" by code_simp
  from uploadAsset_error_wrapping
         [where E = "example_env (net_rejecting ''SSL routines: bad record mac'')"
            and org = "''acme''" and repo = "''site''" and path = "''assets/img.png''"
            and localFilePath = "''./dam/img.png''" and contentType = None
            and name = "''Error''" and message = "''SSL routines: bad record mac''",
          THEN conjunct1, THEN mp, OF h] i
  show ?thesis by simp
qed

text \<open>
  C5 as first stated has every error classified transient wrapped into the diagnostic
  message. \<open>read ECONNRESET\<close> is classified transient by \<open>retryWithBackoff\<close>, and
  \<open>uploadAsset\<close> re-throws it with the prefix instead.
\<close>

theorem uploadAsset_ECONNRESET_not_wrapped:
  "isRetryable ''read ECONNRESET'' \<and>
   fst (uploadAsset (example_env (net_rejecting ''read ECONNRESET'')) ''acme'' ''site'' ''assets/img.png''
          ''./dam/img.png'' None []) =
     Inl (Error ''Error'' ''Failed to upload asset to DA: read ECONNRESET'')"
  by code_simp

text \<open>
  Responses of the preview and publish triggers are logged and otherwise ignored, whatever
  their status: with the upload answered ok, \<open>uploadAsset\<close> returns its result.
\<close>

lemma uploadAsset_status_failures_swallowed:
  assumes read: "readFileSync E localFilePath = Inr fileBuffer"
    and up: "\<And>t. network_of E t (upload_request E org repo path fileBuffer
                 (resolve_mimeType contentType localFilePath)) = Inr r1" "ok r1"
    and pv: "\<And>t. network_of E t (trigger_request E (previewUrl org repo path)) = Inr r2"
    and pb: "\<And>t. network_of E t (trigger_request E (publishUrl org repo path)) = Inr r3"
  shows "fst (uploadAsset E org repo path localFilePath contentType []) =
     Inr \<lparr> success = True,
           result_path = path,
           result_previewUrl = edsUrl org repo path,
           result_liveUrl = liveUrl org repo path,
           result_contentType = resolve_mimeType contentType localFilePath,
           result_size = length fileBuffer \<rparr>"
proof -
  let ?up = "upload_step E org repo path fileBuffer (resolve_mimeType contentType localFilePath)"
  have u: "await_retry ?up 3 1000 t =
      (Inr (), t @ [Fetch (upload_request E org repo path fileBuffer
                 (resolve_mimeType contentType localFilePath)), Log (Log_asset_uploaded path)])" for t
  proof -
    have "?up t = (Inr (), t @ [Fetch (upload_request E org repo path fileBuffer
                 (resolve_mimeType contentType localFilePath)), Log (Log_asset_uploaded path)])"
      using up by (simp add: upload_step_run)
    from retry_first_success [where fn = ?up and t = t and R = 3 and d = 1000, OF _ this]
    show ?thesis by (simp add: await_retry_def)
  qed
  have p: "await_retry (preview_step E org repo path) 2 500 t =
      (Inr (), t @ [Fetch (trigger_request E (previewUrl org repo path)),
         Log (if \<not> ok r2 then Log_preview_failed (resp_status r2) else Log_preview_triggered)])" for t
  proof -
    have "preview_step E org repo path t =
        (Inr (), t @ [Fetch (trigger_request E (previewUrl org repo path)),
         Log (if \<not> ok r2 then Log_preview_failed (resp_status r2) else Log_preview_triggered)])"
      using pv by (simp add: preview_step_def bind_io_def fetch_def console_error_def)
    from retry_first_success [where fn = "preview_step E org repo path" and t = t and R = 2
        and d = 500, OF _ this]
    show ?thesis by (simp add: await_retry_def)
  qed
  have q: "await_retry (publish_step E org repo path) 2 500 t =
      (Inr (), t @ [Fetch (trigger_request E (publishUrl org repo path)),
         Log (if \<not> ok r3 then Log_publish_failed (resp_status r3) else Log_publish_triggered)])" for t
  proof -
    have "publish_step E org repo path t =
        (Inr (), t @ [Fetch (trigger_request E (publishUrl org repo path)),
         Log (if \<not> ok r3 then Log_publish_failed (resp_status r3) else Log_publish_triggered)])"
      using pb by (simp add: publish_step_def bind_io_def fetch_def console_error_def)
    from retry_first_success [where fn = "publish_step E org repo path" and t = t and R = 2
        and d = 500, OF _ this]
    show ?thesis by (simp add: await_retry_def)
  qed
  show ?thesis
    by (simp add: uploadAsset_def uploadAsset_try_def Let_def catch_io_def then_io_def bind_io_def
        console_error_def setTimeout_def return_io_def u p q read)
qed

text \<open>
  C1, evaluated where it fails. The upload succeeds and every \<open>fetch\<close> of the preview
  trigger is rejected with \<open>Failed to fetch\<close>: \<open>retryWithBackoff\<close> gives up after
  three attempts and throws, nothing between it and the \<open>catch\<close> block of
  \<open>uploadAsset\<close> handles the error, and the caller receives an error instead of a result
  with \<open>success: true\<close>.
\<close>

theorem uploadAsset_preview_exhaustion_propagates:
  "fst (uploadAsset (example_env net_preview_down) ''acme'' ''site'' ''assets/img.png''
          ''./dam/img.png'' None []) =
     Inl (Error ''Error'' (network_error_message ''Failed to fetch'')) \<and>
   map req_url (fetched (snd (uploadAsset (example_env net_preview_down) ''acme'' ''site''
          ''assets/img.png'' ''./dam/img.png'' None []))) =
     [uploadUrl ''acme'' ''site'' ''assets/img.png'',
      previewUrl ''acme'' ''site'' ''assets/img.png'',
      previewUrl ''acme'' ''site'' ''assets/img.png'',
      previewUrl ''acme'' ''site'' ''assets/img.png'']"
  by code_simp

text \<open>
  C7, evaluated where it fails. The extension \<open>constructor\<close> is not in the table, but
  \<open>mimeTypes['constructor']\<close> is the inherited \<open>Object\<close> function, which is truthy:
  the result's \<open>contentType\<close> is that function, not \<open>application/octet-stream\<close>.
\<close>

theorem uploadAsset_inherited_property_as_mimeType:
  "fst (uploadAsset (example_env net_all_ok) ''acme'' ''site'' ''assets/notes''
          ''./dam/notes.constructor'' None []) =
     Inr \<lparr> success = True,
           result_path = ''assets/notes'',
           result_previewUrl = ''https://main--site--acme.aem.page/assets/notes'',
           result_liveUrl = ''https://main--site--acme.aem.live/assets/notes'',
           result_contentType = Object_prototype_property ''constructor'',
           result_size = 4 \<rparr>"
  by code_simp

text \<open>What holds of the lookup: table entries, and the default for any other own-less key.\<close>

lemma lookup_mimeType_known:
  "map_of mimeTypes ext = Some m \<Longrightarrow> lookup_mimeType ext = Mime m"
  by (simp add: lookup_mimeType_def)

lemma lookup_mimeType_unknown:
  "map_of mimeTypes ext = None \<Longrightarrow> ext \<notin> set Object_prototype_keys \<Longrightarrow>
   lookup_mimeType ext = Mime ''application/octet-stream''"
  by (simp add: lookup_mimeType_def)

end
